theory Spec2Isabelle
  imports Main "HOL-Library.Word"
begin

section \<open>JavaScript strings\<close>

text \<open>
  A JavaScript string is a sequence of 16-bit code units. Literals of the script are
  ASCII and are written through \<open>js\<close>.
\<close>

type_synonym code_unit = "16 word"
type_synonym js_string = "code_unit list"

definition js :: "string \<Rightarrow> js_string" where
  "js s = map of_char s"

text \<open>
  \<open>String.prototype.trim\<close> strips the code units that ECMAScript calls WhiteSpace or
  LineTerminator from both ends.
\<close>

definition is_white_space :: "code_unit \<Rightarrow> bool" where
  "is_white_space c \<longleftrightarrow>
     c \<in> set [0x0009, 0x000A, 0x000B, 0x000C, 0x000D, 0x0020, 0x00A0, 0x1680,
              0x2028, 0x2029, 0x202F, 0x205F, 0x3000, 0xFEFF]
     \<or> (0x2000 \<le> c \<and> c \<le> 0x200A)"

definition trim :: "js_string \<Rightarrow> js_string" where
  "trim s = rev (dropWhile is_white_space (rev (dropWhile is_white_space s)))"

text \<open>\<open>String.prototype.includes\<close>: the needle occurs at some position of the string.\<close>

fun starts_with :: "js_string \<Rightarrow> js_string \<Rightarrow> bool" where
  "starts_with s [] = True"
| "starts_with [] (n # ns) = False"
| "starts_with (c # cs) (n # ns) = (c = n \<and> starts_with cs ns)"

fun js_includes :: "js_string \<Rightarrow> js_string \<Rightarrow> bool" where
  "js_includes [] n = (n = [])"
| "js_includes (c # cs) n = (starts_with (c # cs) n \<or> js_includes cs n)"

text \<open>ASCII lower-casing, as attribute selectors on \<open>type\<close> compare values.\<close>

definition ascii_lower :: "code_unit \<Rightarrow> code_unit" where
  "ascii_lower c = (if 0x41 \<le> c \<and> c \<le> 0x5A then c + 0x20 else c)"

section \<open>The DOM\<close>

text \<open>
  Element objects live in a store indexed by node identity. The document is a forest of
  node identities (the children of the document node, in document order); subtrees that
  have been removed from their parent are kept as the roots of a second forest, so that
  a removed element keeps its descendants and its object.
\<close>

type_synonym node_id = nat

record style =
  transition :: js_string
  opacity :: js_string
  borderColor :: js_string

text \<open>
  The \<open>href\<close> property of an element: absent (reading it gives \<open>undefined\<close>), a
  string as on HTML links, or an object as on SVG elements (an \<open>SVGAnimatedString\<close>,
  which is truthy and has no \<open>includes\<close> method).
\<close>

datatype href_value = NoHref | HrefString js_string | HrefObject

text \<open>
  \<open>value_of\<close> is \<open>None\<close> where the element has no string-valued \<open>value\<close> property
  (reading it gives \<open>undefined\<close>, or a value that is not a string).
  \<open>classList\<close> is the ordered token set of the class attribute; \<open>files\<close> holds the
  names of the selected files of a file input.
\<close>

record element =
  tagName :: js_string
  classList :: "js_string list"
  required :: bool
  type_attr :: "js_string option"
  href :: href_value
  value_of :: "js_string option"
  files :: "js_string list"
  style :: style

datatype dom_tree = Elem node_id "dom_tree list"

fun root :: "dom_tree \<Rightarrow> node_id" where
  "root (Elem i ts) = i"

fun kids :: "dom_tree \<Rightarrow> dom_tree list" where
  "kids (Elem i ts) = ts"

fun preorder :: "dom_tree \<Rightarrow> node_id list"
  and preorder_forest :: "dom_tree list \<Rightarrow> node_id list" where
  "preorder (Elem i ts) = i # preorder_forest ts"
| "preorder_forest [] = []"
| "preorder_forest (t # ts) = preorder t @ preorder_forest ts"

fun find_node :: "node_id \<Rightarrow> dom_tree \<Rightarrow> dom_tree option"
  and find_in_forest :: "node_id \<Rightarrow> dom_tree list \<Rightarrow> dom_tree option" where
  "find_node i (Elem j ts) = (if i = j then Some (Elem j ts) else find_in_forest i ts)"
| "find_in_forest i [] = None"
| "find_in_forest i (t # ts) =
     (case find_node i t of Some n \<Rightarrow> Some n | None \<Rightarrow> find_in_forest i ts)"

text \<open>The descendants of a node of a forest, in document order.\<close>

definition descendants :: "dom_tree list \<Rightarrow> node_id \<Rightarrow> node_id list" where
  "descendants doc i =
     (case find_in_forest i doc of None \<Rightarrow> [] | Some (Elem j ts) \<Rightarrow> preorder_forest ts)"

text \<open>
  The next sibling of a node within a list of siblings and below it, and within trees
  whose roots have no parent (and so no sibling).
\<close>

fun next_element_sibling :: "dom_tree list \<Rightarrow> node_id \<Rightarrow> node_id option" where
  "next_element_sibling [] i = None"
| "next_element_sibling (Elem j cs # ts) i =
     (if j = i then (case ts of [] \<Rightarrow> None | u # us \<Rightarrow> Some (root u))
      else (case next_element_sibling cs i of
              Some s \<Rightarrow> Some s
            | None \<Rightarrow> next_element_sibling ts i))"

fun next_below_roots :: "dom_tree list \<Rightarrow> node_id \<Rightarrow> node_id option" where
  "next_below_roots [] i = None"
| "next_below_roots (Elem j cs # ts) i =
     (if j = i then None
      else (case next_element_sibling cs i of
              Some s \<Rightarrow> Some s
            | None \<Rightarrow> next_below_roots ts i))"

text \<open>The path from a node up to the root of its tree, the node first.\<close>

fun path_in :: "node_id \<Rightarrow> dom_tree list \<Rightarrow> node_id list option" where
  "path_in i [] = None"
| "path_in i (Elem j cs # ts) =
     (if j = i then Some [i]
      else (case path_in i cs of
              Some p \<Rightarrow> Some (p @ [j])
            | None \<Rightarrow> path_in i ts))"

text \<open>Taking a node out of the child lists of a forest, with its subtree.\<close>

fun remove_from :: "node_id \<Rightarrow> dom_tree list \<Rightarrow> dom_tree list" where
  "remove_from i [] = []"
| "remove_from i (Elem j cs # ts) =
     (if j = i then remove_from i ts else Elem j (remove_from i cs) # remove_from i ts)"

subsection \<open>Selectors\<close>

text \<open>
  The selectors of the script: \<open>.alert\<close>, \<open>.btn-danger\<close> and \<open>.sidebar\<close> are class
  selectors, \<open>form\<close> a type selector, \<open>[required]\<close> an attribute-presence selector and
  \<open>input[type="file"]\<close> a type selector with an attribute-value selector.
\<close>

datatype selector =
    Class js_string
  | Form
  | Required
  | InputTypeFile

fun matches :: "selector \<Rightarrow> element \<Rightarrow> bool" where
  "matches (Class c) e = (c \<in> set (classList e))"
| "matches Form e = (tagName e = js ''FORM'')"
| "matches Required e = required e"
| "matches InputTypeFile e =
     (tagName e = js ''INPUT'' \<and>
      (case type_attr e of None \<Rightarrow> False | Some t \<Rightarrow> map ascii_lower t = js ''file''))"

definition select_in :: "(node_id \<Rightarrow> element) \<Rightarrow> selector \<Rightarrow> node_id list \<Rightarrow> node_id list" where
  "select_in els sel ids = filter (\<lambda>i. matches sel (els i)) ids"

section \<open>Program state\<close>

datatype js_error = TypeError

datatype dialog = AlertDialog js_string | ConfirmDialog js_string

datatype event_type = DOMContentLoaded | Click | Submit | Change

datatype target = Document | Element node_id

text \<open>
  The function values of the script. The anonymous functions are named after what they do:
  \<open>Initialize\<close> is the \<open>DOMContentLoaded\<close> listener, \<open>ConfirmDelete\<close> the click
  listener of a delete button, \<open>ValidateForm form\<close> the submit listener closed over
  \<open>form\<close>, \<open>FileInputChange input\<close> the change listener with \<open>this\<close> bound to the
  input it is registered on. \<open>FadeOut alert\<close> and \<open>RemoveAlert alert\<close> are the outer
  and the inner timer callback, closed over \<open>alert\<close>.
\<close>

datatype handler =
    Initialize
  | ConfirmDelete
  | ValidateForm node_id
  | FileInputChange node_id

datatype callback = FadeOut node_id | RemoveAlert node_id

datatype js_function = ToggleMobileMenu

datatype js_value = Function js_function | Object "(string \<times> js_value) list"

record event =
  default_prevented :: bool

text \<open>
  \<open>timers\<close> is the queue of pending timeouts, each with the time (in milliseconds) at
  which it is due, ordered by due time and, for equal times, by registration.
  \<open>dialogs\<close> logs the modal dialogs shown; \<open>answers\<close> holds what the user will answer
  to the confirmation dialogs to come (none left: the dialog is dismissed, which counts
  as no). \<open>uncaught\<close> logs the exceptions that escaped a listener, \<open>window\<close> holds the
  properties of the global object.
\<close>

record state =
  document :: "dom_tree list"
  detached :: "dom_tree list"
  elements :: "node_id \<Rightarrow> element"
  listeners :: "(target \<times> event_type \<times> handler) list"
  timers :: "(nat \<times> callback) list"
  now :: nat
  dialogs :: "dialog list"
  answers :: "bool list"
  uncaught :: "js_error list"
  window :: "string \<rightharpoonup> js_value"

subsection \<open>Browser primitives\<close>

definition querySelectorAll :: "state \<Rightarrow> selector \<Rightarrow> node_id list" where
  "querySelectorAll st sel = select_in (elements st) sel (preorder_forest (document st))"

definition querySelector :: "state \<Rightarrow> selector \<Rightarrow> node_id option" where
  "querySelector st sel =
     (case querySelectorAll st sel of [] \<Rightarrow> None | i # _ \<Rightarrow> Some i)"

text \<open>\<open>parent.querySelectorAll\<close>, for a parent in the document or in a removed subtree.\<close>

definition querySelectorAll_in :: "state \<Rightarrow> node_id \<Rightarrow> selector \<Rightarrow> node_id list" where
  "querySelectorAll_in st parent sel =
     select_in (elements st) sel (descendants (document st @ detached st) parent)"

definition nextElementSibling :: "state \<Rightarrow> node_id \<Rightarrow> node_id option" where
  "nextElementSibling st i =
     (case next_element_sibling (document st) i of
        Some s \<Rightarrow> Some s
      | None \<Rightarrow> next_below_roots (detached st) i)"

text \<open>
  \<open>Element.remove()\<close>: the node leaves its parent's child list and becomes, with its
  subtree, a tree of its own; a node without a parent stays as it is.
\<close>

definition remove_element :: "node_id \<Rightarrow> state \<Rightarrow> state" where
  "remove_element i st =
     (case find_in_forest i (document st) of
        Some t \<Rightarrow>
          st\<lparr>document := remove_from i (document st), detached := detached st @ [t]\<rparr>
      | None \<Rightarrow>
          (case find_in_forest i (concat (map kids (detached st))) of
             Some t \<Rightarrow>
               st\<lparr>detached :=
                    map (\<lambda>r. Elem (root r) (remove_from i (kids r))) (detached st) @ [t]\<rparr>
           | None \<Rightarrow> st))"

definition addEventListener :: "target \<Rightarrow> event_type \<Rightarrow> handler \<Rightarrow> state \<Rightarrow> state" where
  "addEventListener tgt ty h st = st\<lparr>listeners := listeners st @ [(tgt, ty, h)]\<rparr>"

fun enqueue :: "nat \<times> callback \<Rightarrow> (nat \<times> callback) list \<Rightarrow> (nat \<times> callback) list" where
  "enqueue t [] = [t]"
| "enqueue t (u # us) = (if fst t < fst u then t # u # us else u # enqueue t us)"

definition setTimeout :: "callback \<Rightarrow> nat \<Rightarrow> state \<Rightarrow> state" where
  "setTimeout cb delay st = st\<lparr>timers := enqueue (now st + delay, cb) (timers st)\<rparr>"

definition preventDefault :: "event \<Rightarrow> event" where
  "preventDefault e = e\<lparr>default_prevented := True\<rparr>"

definition show_dialog :: "dialog \<Rightarrow> state \<Rightarrow> state" where
  "show_dialog d st = st\<lparr>dialogs := dialogs st @ [d]\<rparr>"

text \<open>\<open>confirm\<close> shows its dialog and returns the user's next answer.\<close>

definition confirm :: "js_string \<Rightarrow> state \<Rightarrow> bool \<times> state" where
  "confirm msg st =
     ((case answers st of [] \<Rightarrow> False | a # as \<Rightarrow> a),
      (show_dialog (ConfirmDialog msg) st)\<lparr>answers := tl (answers st)\<rparr>)"

definition update_element :: "node_id \<Rightarrow> (element \<Rightarrow> element) \<Rightarrow> state \<Rightarrow> state" where
  "update_element i f st = st\<lparr>elements := (elements st)(i := f (elements st i))\<rparr>"

text \<open>
  \<open>DOMTokenList.toggle\<close>: a token that is present is removed, one that is absent is
  appended.
\<close>

definition toggle :: "js_string \<Rightarrow> js_string list \<Rightarrow> js_string list" where
  "toggle tok cl = (if tok \<in> set cl then removeAll tok cl else cl @ [tok])"

text \<open>
  The targets an event passes, in the order in which their listeners run: the target,
  its ancestors from the parent up, and the document when the target is in it. The
  events of the script's listeners (click, submit, change) all bubble.
\<close>

definition event_path :: "state \<Rightarrow> target \<Rightarrow> target list" where
  "event_path st tgt =
     (case tgt of
        Document \<Rightarrow> [Document]
      | Element i \<Rightarrow>
          (case path_in i (document st) of
             Some p \<Rightarrow> map Element p @ [Document]
           | None \<Rightarrow>
               (case path_in i (detached st) of
                  Some p \<Rightarrow> map Element p
                | None \<Rightarrow> [Element i])))"

section \<open>Programs\<close>

text \<open>
  The listeners and timer callbacks of the script are programs over the operations of
  the browser that they call. A program reaches the page through these operations only:
  \<open>Get\<close> reads the properties of an element, \<open>Set\<close> writes them, the others are the
  methods of the same name. Where an operation is a property access or a method call on
  an element, running it records the element.
\<close>

datatype 'a prog =
    Return 'a
  | Throw js_error
  | Document_querySelectorAll selector "node_id list \<Rightarrow> 'a prog"
  | Document_querySelector selector "node_id option \<Rightarrow> 'a prog"
  | Element_querySelectorAll node_id selector "node_id list \<Rightarrow> 'a prog"
  | Get node_id "element \<Rightarrow> 'a prog"
  | Get_nextElementSibling node_id "node_id option \<Rightarrow> 'a prog"
  | Set node_id "element \<Rightarrow> element" "'a prog"
  | Element_remove node_id "'a prog"
  | Element_addEventListener node_id event_type handler "'a prog"
  | SetTimeout callback nat "'a prog"
  | Confirm js_string "bool \<Rightarrow> 'a prog"
  | Alert js_string "'a prog"
  | PreventDefault "'a prog"

text \<open>
  Running a program on a state and an event gives the value returned or the exception
  thrown, the state and the event it leaves, and the elements it accessed, in order.
\<close>

type_synonym 'a run = "(js_error + 'a) \<times> (state \<times> event) \<times> node_id list"

definition touch :: "node_id \<Rightarrow> 'a run \<Rightarrow> 'a run" where
  "touch i r = (fst r, fst (snd r), i # snd (snd r))"

primrec exec :: "'a prog \<Rightarrow> state \<times> event \<Rightarrow> 'a run" where
  "exec (Return x) se = (Inr x, se, [])"
| "exec (Throw err) se = (Inl err, se, [])"
| "exec (Document_querySelectorAll sel k) se = exec (k (querySelectorAll (fst se) sel)) se"
| "exec (Document_querySelector sel k) se = exec (k (querySelector (fst se) sel)) se"
| "exec (Element_querySelectorAll i sel k) se =
     touch i (exec (k (querySelectorAll_in (fst se) i sel)) se)"
| "exec (Get i k) se = touch i (exec (k (elements (fst se) i)) se)"
| "exec (Get_nextElementSibling i k) se =
     touch i (exec (k (nextElementSibling (fst se) i)) se)"
| "exec (Set i f p) se = touch i (exec p (update_element i f (fst se), snd se))"
| "exec (Element_remove i p) se = touch i (exec p (remove_element i (fst se), snd se))"
| "exec (Element_addEventListener i ty h p) se =
     touch i (exec p (addEventListener (Element i) ty h (fst se), snd se))"
| "exec (SetTimeout cb delay p) se = exec p (setTimeout cb delay (fst se), snd se)"
| "exec (Confirm msg k) se =
     exec (k (fst (confirm msg (fst se)))) (snd (confirm msg (fst se)), snd se)"
| "exec (Alert msg p) se = exec p (show_dialog (AlertDialog msg) (fst se), snd se)"
| "exec (PreventDefault p) se = exec p (fst se, preventDefault (snd se))"

definition outcome :: "'a prog \<Rightarrow> state \<times> event \<Rightarrow> js_error + 'a" where
  "outcome p se = fst (exec p se)"

definition final :: "'a prog \<Rightarrow> state \<times> event \<Rightarrow> state \<times> event" where
  "final p se = fst (snd (exec p se))"

definition trace :: "'a prog \<Rightarrow> state \<times> event \<Rightarrow> node_id list" where
  "trace p se = snd (snd (exec p se))"

text \<open>
  A listener or callback that ends with an exception leaves the state it has reached;
  the exception is reported.
\<close>

definition run_program :: "unit prog \<Rightarrow> state \<times> event \<Rightarrow> state \<times> event" where
  "run_program p se =
     (case outcome p se of
        Inl err \<Rightarrow> ((fst (final p se))\<lparr>uncaught := uncaught (fst (final p se)) @ [err]\<rparr>,
                    snd (final p se))
      | Inr u \<Rightarrow> final p se)"

section \<open>The script\<close>

subsection \<open>Alert timers\<close>

definition remove_alert :: "node_id \<Rightarrow> unit prog" where
  "remove_alert alert = Element_remove alert (Return ())"

definition fade_out :: "node_id \<Rightarrow> unit prog" where
  "fade_out alert =
     Set alert (\<lambda>el. el\<lparr>style := (style el)\<lparr>transition := js ''opacity 0.5s''\<rparr>\<rparr>)
       (Set alert (\<lambda>el. el\<lparr>style := (style el)\<lparr>opacity := js ''0''\<rparr>\<rparr>)
          (SetTimeout (RemoveAlert alert) 500 (Return ())))"

text \<open>\<open>alerts.forEach\<close>, followed by the rest of the listener.\<close>

fun set_alert_timers :: "node_id list \<Rightarrow> 'a prog \<Rightarrow> 'a prog" where
  "set_alert_timers [] rest = rest"
| "set_alert_timers (alert # more_alerts) rest =
     SetTimeout (FadeOut alert) 5000 (set_alert_timers more_alerts rest)"

subsection \<open>Delete confirmation\<close>

text \<open>
  \<open>deleteButtons.forEach\<close>, followed by the rest of the listener. In
  \<open>button.href && button.href.includes('delete')\<close> an absent \<open>href\<close> and the empty
  string are falsy; on an \<open>href\<close> that is an object, \<open>includes\<close> is not a function, so
  the call throws and the rest is not run.
\<close>

fun add_confirmations :: "node_id list \<Rightarrow> 'a prog \<Rightarrow> 'a prog" where
  "add_confirmations [] rest = rest"
| "add_confirmations (button # more_buttons) rest =
     Get button (\<lambda>el.
       case href el of
         NoHref \<Rightarrow> add_confirmations more_buttons rest
       | HrefString h \<Rightarrow>
           if h \<noteq> [] \<and> js_includes h (js ''delete'')
           then Element_addEventListener button Click ConfirmDelete
                  (add_confirmations more_buttons rest)
           else add_confirmations more_buttons rest
       | HrefObject \<Rightarrow> Throw TypeError)"

text \<open>The click listener: \<open>confirm\<close>, and \<open>preventDefault\<close> when the answer is no.\<close>

definition confirm_delete :: "unit prog" where
  "confirm_delete =
     Confirm (js ''Are you sure you want to delete this item?'')
       (\<lambda>ok. if \<not> ok then PreventDefault (Return ()) else Return ())"

subsection \<open>Form validation\<close>

text \<open>
  \<open>requiredFields.forEach\<close> with \<open>isValid\<close> as accumulator, followed by what the
  listener does with \<open>isValid\<close>. Where \<open>field.value\<close> is not a string,
  \<open>field.value.trim()\<close> throws and the rest is not run.
\<close>

fun check_fields :: "node_id list \<Rightarrow> bool \<Rightarrow> (bool \<Rightarrow> 'a prog) \<Rightarrow> 'a prog" where
  "check_fields [] isValid rest = rest isValid"
| "check_fields (field # more_fields) isValid rest =
     Get field (\<lambda>el.
       case value_of el of
         None \<Rightarrow> Throw TypeError
       | Some v \<Rightarrow>
           if trim v = [] then
             Set field (\<lambda>el. el\<lparr>style := (style el)\<lparr>borderColor := js ''#ef4444''\<rparr>\<rparr>)
               (check_fields more_fields False rest)
           else
             Set field (\<lambda>el. el\<lparr>style := (style el)\<lparr>borderColor := js ''#e5e7eb''\<rparr>\<rparr>)
               (check_fields more_fields isValid rest))"

definition validate_form :: "node_id \<Rightarrow> unit prog" where
  "validate_form form =
     Element_querySelectorAll form Required (\<lambda>requiredFields.
       check_fields requiredFields True (\<lambda>isValid.
         if \<not> isValid
         then PreventDefault (Alert (js ''Please fill in all required fields.'') (Return ()))
         else Return ()))"

fun add_validations :: "node_id list \<Rightarrow> 'a prog \<Rightarrow> 'a prog" where
  "add_validations [] rest = rest"
| "add_validations (form # more_forms) rest =
     Element_addEventListener form Submit (ValidateForm form)
       (add_validations more_forms rest)"

subsection \<open>File inputs\<close>

definition file_input_change :: "node_id \<Rightarrow> unit prog" where
  "file_input_change this =
     Get this (\<lambda>el.
       let fileName = (case files el of [] \<Rightarrow> js ''No file chosen'' | f # fs \<Rightarrow> f)
       in Get_nextElementSibling this (\<lambda>label.
            case label of
              None \<Rightarrow> Return ()
            | Some l \<Rightarrow>
                Get l (\<lambda>label_el.
                  if tagName label_el = js ''SMALL'' then Return () else Return ())))"

fun add_change_listeners :: "node_id list \<Rightarrow> 'a prog \<Rightarrow> 'a prog" where
  "add_change_listeners [] rest = rest"
| "add_change_listeners (input # more_inputs) rest =
     Element_addEventListener input Change (FileInputChange input)
       (add_change_listeners more_inputs rest)"

subsection \<open>Initialisation\<close>

text \<open>
  The \<open>DOMContentLoaded\<close> listener. An exception in the loop over the danger buttons
  ends it: the alert timers are set by then, the forms and the file inputs get no
  listener.
\<close>

definition dom_content_loaded :: "unit prog" where
  "dom_content_loaded =
     Document_querySelectorAll (Class (js ''alert'')) (\<lambda>alerts.
       set_alert_timers alerts
         (Document_querySelectorAll (Class (js ''btn-danger'')) (\<lambda>deleteButtons.
            add_confirmations deleteButtons
              (Document_querySelectorAll Form (\<lambda>forms.
                 add_validations forms
                   (Document_querySelectorAll InputTypeFile (\<lambda>fileInputs.
                      add_change_listeners fileInputs (Return ()))))))))"

subsection \<open>Mobile menu and exports\<close>

definition toggleMobileMenu :: "state \<Rightarrow> state" where
  "toggleMobileMenu st =
     (case querySelector st (Class (js ''sidebar'')) of
        None \<Rightarrow> st
      | Some sidebar \<Rightarrow>
          update_element sidebar
            (\<lambda>el. el\<lparr>classList := toggle (js ''mobile-open'') (classList el)\<rparr>) st)"

text \<open>
  Running the top level of the script. A function declaration at the top level of a
  classic script becomes a property of the global object; in a module it stays local.
  How the page includes the script is not part of the script, so it is a parameter.
\<close>

datatype script_kind = Classic | Module

definition load_script :: "script_kind \<Rightarrow> state \<Rightarrow> state" where
  "load_script kind st =
     (let st1 = (case kind of
                   Classic \<Rightarrow> st\<lparr>window := (window st)(''toggleMobileMenu'' \<mapsto> Function ToggleMobileMenu)\<rparr>
                 | Module \<Rightarrow> st);
          st2 = addEventListener Document DOMContentLoaded Initialize st1
      in st2\<lparr>window := (window st2)(''AEGIS'' \<mapsto>
                Object [(''toggleMobileMenu'', Function ToggleMobileMenu)])\<rparr>)"

text \<open>\<open>toggleMobileMenu\<close> once more, as a program.\<close>

definition toggleMobileMenu_program :: "unit prog" where
  "toggleMobileMenu_program =
     Document_querySelector (Class (js ''sidebar'')) (\<lambda>sidebar.
       case sidebar of
         None \<Rightarrow> Return ()
       | Some s \<Rightarrow>
           Set s (\<lambda>el. el\<lparr>classList := toggle (js ''mobile-open'') (classList el)\<rparr>)
             (Return ()))"

section \<open>Events and time\<close>

fun handler_body :: "handler \<Rightarrow> unit prog" where
  "handler_body Initialize = dom_content_loaded"
| "handler_body ConfirmDelete = confirm_delete"
| "handler_body (ValidateForm form) = validate_form form"
| "handler_body (FileInputChange input) = file_input_change input"

fun callback_body :: "callback \<Rightarrow> unit prog" where
  "callback_body (FadeOut alert) = fade_out alert"
| "callback_body (RemoveAlert alert) = remove_alert alert"

text \<open>
  An event invokes, for each target on its path in turn, the listeners registered on
  that target for its type, in order of registration. An exception in a listener does
  not stop the others. A timer callback runs without an event: it is run with one that
  it does not touch.
\<close>

definition run_handler :: "handler \<Rightarrow> state \<times> event \<Rightarrow> state \<times> event" where
  "run_handler h se = run_program (handler_body h) se"

definition run_callback :: "callback \<Rightarrow> state \<Rightarrow> state" where
  "run_callback cb st = fst (run_program (callback_body cb) (st, \<lparr>default_prevented = False\<rparr>))"

definition listeners_on :: "state \<Rightarrow> target \<Rightarrow> event_type \<Rightarrow> handler list" where
  "listeners_on st tgt ty =
     map (\<lambda>l. snd (snd l)) (filter (\<lambda>l. fst l = tgt \<and> fst (snd l) = ty) (listeners st))"

definition dispatch :: "target \<Rightarrow> event_type \<Rightarrow> state \<times> event \<Rightarrow> state \<times> event" where
  "dispatch tgt ty se =
     fold (\<lambda>current se'. fold run_handler (listeners_on (fst se') current ty) se')
       (event_path (fst se) tgt) se"

text \<open>Calling a method of a global namespace object, as another script would.\<close>

fun invoke :: "js_function \<Rightarrow> state \<Rightarrow> state" where
  "invoke ToggleMobileMenu st = toggleMobileMenu st"

definition call_method :: "string \<Rightarrow> string \<Rightarrow> state \<Rightarrow> js_error + state" where
  "call_method obj name st =
     (case window st obj of
        Some (Object props) \<Rightarrow>
          (case map_of props name of
             Some (Function f) \<Rightarrow> Inr (invoke f st)
           | _ \<Rightarrow> Inl TypeError)
      | _ \<Rightarrow> Inl TypeError)"

text \<open>
  Virtual time. \<open>advance t\<close> lets the clock reach \<open>t\<close>: every timeout due by then
  runs, in queue order, at the time it is due (so a timeout set by a callback counts
  from the due time of that callback). The queue empties because a \<open>FadeOut\<close> callback
  sets one \<open>RemoveAlert\<close> timeout and a \<open>RemoveAlert\<close> callback sets none.
\<close>

fun callback_weight :: "callback \<Rightarrow> nat" where
  "callback_weight (FadeOut a) = 2"
| "callback_weight (RemoveAlert a) = 1"

definition pending_work :: "state \<Rightarrow> nat" where
  "pending_work st = sum_list (map (\<lambda>t. callback_weight (snd t)) (timers st))"

function advance :: "nat \<Rightarrow> state \<Rightarrow> state" where
  "advance t st =
     (case timers st of
        [] \<Rightarrow> st\<lparr>now := max (now st) t\<rparr>
      | (due, cb) # rest \<Rightarrow>
          if due \<le> t
          then advance t (run_callback cb (st\<lparr>timers := rest, now := max (now st) due\<rparr>))
          else st\<lparr>now := max (now st) t\<rparr>)"
  by pat_completeness auto
termination
proof (relation "measure (\<lambda>(t, st). pending_work st)")
  show "wf (measure (\<lambda>(t, st). pending_work st))" by simp
next
  fix t :: nat and st :: state and timer rest due cb
  assume q: "timers st = timer # rest" and p: "(due, cb) = timer" and "due \<le> t"
  have w: "sum_list (map (\<lambda>t. callback_weight (snd t)) (enqueue x q)) =
             callback_weight (snd x) + sum_list (map (\<lambda>t. callback_weight (snd t)) q)" for x q
    by (induction q) auto
  have "pending_work (run_callback cb (st\<lparr>timers := rest, now := max (now st) due\<rparr>))
          < pending_work st"
    using q p
    by (cases cb)
       (auto simp: pending_work_def run_callback_def run_program_def outcome_def final_def
          touch_def fade_out_def remove_alert_def remove_element_def setTimeout_def
          update_element_def w split: option.splits)
  then show "((t, run_callback cb (st\<lparr>timers := rest, now := max (now st) due\<rparr>)), t, st)
               \<in> measure (\<lambda>(t, st). pending_work st)"
    by simp
qed

declare advance.simps [simp del]

text \<open>
  The page once the script has run and \<open>DOMContentLoaded\<close> has been dispatched on the
  document.
\<close>

definition page_ready :: "script_kind \<Rightarrow> state \<Rightarrow> state" where
  "page_ready kind st =
     fst (dispatch Document DOMContentLoaded
            (load_script kind st, \<lparr>default_prevented = False\<rparr>))"

section \<open>Derived notions\<close>

subsection \<open>What initialisation registers\<close>

text \<open>
  A delete link is an element on which the guard
  \<open>button.href && button.href.includes('delete')\<close> evaluates to true. The loop over the
  danger buttons reaches the buttons before the first one whose \<open>href\<close> is an object,
  and the \<open>DOMContentLoaded\<close> listener runs to its end when there is no such button.
  \<open>installed\<close> lists the listeners that the \<open>DOMContentLoaded\<close> listener registers on
  a page, in order of registration; that this is what running \<open>dom_content_loaded\<close>
  does is lemma \<open>run_handler_Initialize\<close>.
\<close>

definition is_delete_link :: "element \<Rightarrow> bool" where
  "is_delete_link el =
     (case href el of
        HrefString h \<Rightarrow> h \<noteq> [] \<and> js_includes h (js ''delete'')
      | _ \<Rightarrow> False)"

definition reached_buttons :: "state \<Rightarrow> node_id list" where
  "reached_buttons st =
     takeWhile (\<lambda>b. href (elements st b) \<noteq> HrefObject)
       (querySelectorAll st (Class (js ''btn-danger'')))"

definition init_completes :: "state \<Rightarrow> bool" where
  "init_completes st \<longleftrightarrow>
     (\<forall>b\<in>set (querySelectorAll st (Class (js ''btn-danger''))). href (elements st b) \<noteq> HrefObject)"

definition installed :: "state \<Rightarrow> (target \<times> event_type \<times> handler) list" where
  "installed st =
     map (\<lambda>b. (Element b, Click, ConfirmDelete))
       (filter (\<lambda>b. is_delete_link (elements st b)) (reached_buttons st))
     @ (if init_completes st
        then map (\<lambda>f. (Element f, Submit, ValidateForm f)) (querySelectorAll st Form)
             @ map (\<lambda>i. (Element i, Change, FileInputChange i)) (querySelectorAll st InputTypeFile)
        else [])"

subsection \<open>The submit listener in closed form\<close>

text \<open>
  What \<open>check_fields\<close> and \<open>validate_form\<close> compute, as functions on states; that
  running the programs gives these is lemmas \<open>check_fields_run\<close> and
  \<open>run_handler_ValidateForm\<close>. \<open>mark_field\<close> is a required element after the
  listener has styled it, \<open>is_blank\<close> holds of an element whose value is empty once
  trimmed.
\<close>

fun fields_checked :: "node_id list \<Rightarrow> state \<Rightarrow> bool \<Rightarrow> state \<times> (js_error + bool)" where
  "fields_checked [] st isValid = (st, Inr isValid)"
| "fields_checked (field # more_fields) st isValid =
     (case value_of (elements st field) of
        None \<Rightarrow> (st, Inl TypeError)
      | Some v \<Rightarrow>
          if trim v = [] then
            fields_checked more_fields
              (update_element field (\<lambda>el. el\<lparr>style := (style el)\<lparr>borderColor := js ''#ef4444''\<rparr>\<rparr>) st)
              False
          else
            fields_checked more_fields
              (update_element field (\<lambda>el. el\<lparr>style := (style el)\<lparr>borderColor := js ''#e5e7eb''\<rparr>\<rparr>) st)
              isValid)"

definition validated :: "node_id \<Rightarrow> state \<times> event \<Rightarrow> state \<times> event" where
  "validated form se =
     (case fields_checked (querySelectorAll_in (fst se) form Required) (fst se) True of
        (st, Inl err) \<Rightarrow> (st\<lparr>uncaught := uncaught st @ [err]\<rparr>, snd se)
      | (st, Inr isValid) \<Rightarrow>
          if \<not> isValid then
            (show_dialog (AlertDialog (js ''Please fill in all required fields.'')) st,
             preventDefault (snd se))
          else (st, snd se))"

definition mark_field :: "element \<Rightarrow> element" where
  "mark_field el =
     (case value_of el of
        None \<Rightarrow> el
      | Some v \<Rightarrow> el\<lparr>style := (style el)\<lparr>borderColor :=
                      (if trim v = [] then js ''#ef4444'' else js ''#e5e7eb'')\<rparr>\<rparr>)"

definition is_blank :: "element \<Rightarrow> bool" where
  "is_blank el = (case value_of el of None \<Rightarrow> False | Some v \<Rightarrow> trim v = [])"

subsection \<open>Alerts on their way out\<close>

text \<open>
  An alert after the outer timer callback, and the timer queue while alerts \<open>as\<close>
  wait for that callback and alerts \<open>bs\<close> for the inner one, for timers set at time
  \<open>T\<close>.
\<close>

definition faded :: "element \<Rightarrow> element" where
  "faded el =
     el\<lparr>style := (style el)\<lparr>transition := js ''opacity 0.5s'', opacity := js ''0''\<rparr>\<rparr>"

definition fade_queue :: "nat \<Rightarrow> node_id list \<Rightarrow> node_id list \<Rightarrow> (nat \<times> callback) list" where
  "fade_queue T as bs =
     map (\<lambda>a. (T + 5000, FadeOut a)) as @ map (\<lambda>b. (T + 5500, RemoveAlert b)) bs"

section \<open>Footprint of the script\<close>

text \<open>
  Everything the script does after it has loaded is one of: a listener invoked with an
  event, a timer callback, or a call of the exported function. Each runs a program;
  \<open>perform\<close> is its effect on the state, \<open>accesses\<close> the elements that running the
  program accesses, in order.
\<close>

datatype activity =
    Listener handler event
  | TimerCallback callback
  | Call js_function

fun program :: "activity \<Rightarrow> unit prog" where
  "program (Listener h e) = handler_body h"
| "program (TimerCallback cb) = callback_body cb"
| "program (Call ToggleMobileMenu) = toggleMobileMenu_program"

fun event_of :: "activity \<Rightarrow> event" where
  "event_of (Listener h e) = e"
| "event_of (TimerCallback cb) = \<lparr>default_prevented = False\<rparr>"
| "event_of (Call f) = \<lparr>default_prevented = False\<rparr>"

fun perform :: "activity \<Rightarrow> state \<Rightarrow> state" where
  "perform (Listener h e) st = fst (run_handler h (st, e))"
| "perform (TimerCallback cb) st = run_callback cb st"
| "perform (Call f) st = invoke f st"

fun enabled :: "state \<Rightarrow> activity \<Rightarrow> bool" where
  "enabled st (Listener h e) = (h \<in> set (map (\<lambda>l. snd (snd l)) (listeners st)))"
| "enabled st (TimerCallback cb) = (cb \<in> set (map snd (timers st)))"
| "enabled st (Call f) = True"

definition accesses :: "activity \<Rightarrow> state \<Rightarrow> node_id list" where
  "accesses act st = trace (program act) (st, event_of act)"

text \<open>
  The structure conventions: an element with class \<open>alert\<close>, \<open>btn-danger\<close> or
  \<open>sidebar\<close>, a form, an element with the \<open>required\<close> attribute inside a form, a
  file input. \<open>follows_file_input\<close> holds of the next element sibling of a file input.
  Forms and file inputs are looked for among all nodes, in the document or in a removed
  subtree.
\<close>

definition all_nodes :: "state \<Rightarrow> node_id list" where
  "all_nodes st = preorder_forest (document st @ detached st)"

definition conventional :: "state \<Rightarrow> node_id \<Rightarrow> bool" where
  "conventional st i \<longleftrightarrow>
     matches (Class (js ''alert'')) (elements st i) \<or>
     matches (Class (js ''btn-danger'')) (elements st i) \<or>
     matches (Class (js ''sidebar'')) (elements st i) \<or>
     matches Form (elements st i) \<or>
     (matches Required (elements st i) \<and>
      (\<exists>form\<in>set (select_in (elements st) Form (all_nodes st)).
         i \<in> set (descendants (document st @ detached st) form))) \<or>
     matches InputTypeFile (elements st i)"

definition follows_file_input :: "state \<Rightarrow> node_id \<Rightarrow> bool" where
  "follows_file_input st i \<longleftrightarrow>
     (\<exists>input\<in>set (select_in (elements st) InputTypeFile (all_nodes st)).
        nextElementSibling st input = Some i)"

text \<open>
  The listeners and timers of the script sit on elements of the kind they were registered
  for: a submit listener is closed over a form, a change listener is bound to a file
  input, a timer callback is closed over an element of class \<open>alert\<close>.
\<close>

fun callback_target :: "callback \<Rightarrow> node_id" where
  "callback_target (FadeOut alert) = alert"
| "callback_target (RemoveAlert alert) = alert"

fun handler_ok :: "state \<Rightarrow> handler \<Rightarrow> bool" where
  "handler_ok st Initialize = True"
| "handler_ok st ConfirmDelete = True"
| "handler_ok st (ValidateForm form) = matches Form (elements st form)"
| "handler_ok st (FileInputChange input) = matches InputTypeFile (elements st input)"

definition script_state :: "state \<Rightarrow> bool" where
  "script_state st \<longleftrightarrow>
     (\<forall>l\<in>set (listeners st). handler_ok st (snd (snd l))) \<and>
     (\<forall>t\<in>set (timers st). matches (Class (js ''alert'')) (elements st (callback_target (snd t))))"

text \<open>Two elements that differ at most in style, values and the class \<open>mobile-open\<close>.\<close>

definition same_shape :: "element \<Rightarrow> element \<Rightarrow> bool" where
  "same_shape el el' \<longleftrightarrow>
     tagName el' = tagName el \<and> required el' = required el \<and> type_attr el' = type_attr el \<and>
     (\<forall>c. c \<noteq> js ''mobile-open'' \<longrightarrow> (c \<in> set (classList el') \<longleftrightarrow> c \<in> set (classList el)))"

section \<open>Sample pages\<close>

text \<open>
  A page with one alert, a delete link (2), a logout link of class \<open>btn-danger\<close> (3),
  a form (4) with two required text inputs (5 holding a single space, 6 holding
  \<open>bob\<close>), a file input (7) followed by a \<open>small\<close> element (8), and a sidebar (9)
  whose class list is \<open>mobile-open sidebar\<close>.
\<close>

definition blank_element :: element where
  "blank_element =
     \<lparr>tagName = js ''DIV'', classList = [], required = False, type_attr = None, href = NoHref,
      value_of = None, files = [],
      style = \<lparr>transition = [], opacity = [], borderColor = []\<rparr>\<rparr>"

definition sample_elements :: "node_id \<Rightarrow> element" where
  "sample_elements =
     (\<lambda>i. blank_element)
       (0 := blank_element\<lparr>tagName := js ''BODY''\<rparr>,
        1 := blank_element\<lparr>classList := [js ''alert'', js ''alert-success'']\<rparr>,
        2 := blank_element\<lparr>tagName := js ''A'', classList := [js ''btn'', js ''btn-danger''],
                            href := HrefString (js ''http://host/items/delete/3'')\<rparr>,
        3 := blank_element\<lparr>tagName := js ''A'', classList := [js ''btn-danger''],
                            href := HrefString (js ''http://host/logout'')\<rparr>,
        4 := blank_element\<lparr>tagName := js ''FORM''\<rparr>,
        5 := blank_element\<lparr>tagName := js ''INPUT'', required := True,
                            type_attr := Some (js ''text''), value_of := Some (js '' '')\<rparr>,
        6 := blank_element\<lparr>tagName := js ''INPUT'', required := True,
                            type_attr := Some (js ''text''), value_of := Some (js ''bob'')\<rparr>,
        7 := blank_element\<lparr>tagName := js ''INPUT'', type_attr := Some (js ''file''),
                            value_of := Some []\<rparr>,
        8 := blank_element\<lparr>tagName := js ''SMALL''\<rparr>,
        9 := blank_element\<lparr>tagName := js ''NAV'',
                            classList := [js ''mobile-open'', js ''sidebar'']\<rparr>)"

definition sample_page :: state where
  "sample_page =
     \<lparr>document = [Elem 0 [Elem 1 [], Elem 2 [], Elem 3 [],
                           Elem 4 [Elem 5 [], Elem 6 [], Elem 7 [], Elem 8 []],
                           Elem 9 []]],
      detached = [],
      elements = sample_elements, listeners = [], timers = [], now = 0, dialogs = [],
      answers = [], uncaught = [], window = Map.empty\<rparr>"


definition late_alert_page :: state where
  "late_alert_page =
     (page_ready Classic sample_page)
       \<lparr>document := [Elem 0 [Elem 10 [], Elem 1 [], Elem 2 [], Elem 3 [],
                              Elem 4 [Elem 5 [], Elem 6 [], Elem 7 [], Elem 8 []],
                              Elem 9 []]],
        elements := (elements (page_ready Classic sample_page))
                      (10 := blank_element\<lparr>classList := [js ''alert'']\<rparr>)\<rparr>"

definition late_form_page :: state where
  "late_form_page =
     (page_ready Classic sample_page)
       \<lparr>document := [Elem 0 [Elem 1 [], Elem 2 [], Elem 3 [],
                              Elem 4 [Elem 5 [], Elem 6 [], Elem 7 [], Elem 8 []],
                              Elem 9 [], Elem 14 [Elem 15 []]]],
        elements := (elements (page_ready Classic sample_page))
                      (14 := blank_element\<lparr>tagName := js ''FORM''\<rparr>,
                       15 := blank_element\<lparr>tagName := js ''INPUT'', required := True,
                               type_attr := Some (js ''text''), value_of := Some []\<rparr>)\<rparr>"

text \<open>
  The sample page with an SVG link of class \<open>btn-danger\<close> (10), whose \<open>href\<close> is an
  object, as first child of the body, and with the second required input empty.
\<close>

definition svg_page :: state where
  "svg_page =
     sample_page
       \<lparr>document := [Elem 0 [Elem 10 [], Elem 1 [], Elem 2 [], Elem 3 [],
                              Elem 4 [Elem 5 [], Elem 6 [], Elem 7 [], Elem 8 []],
                              Elem 9 []]],
        elements := sample_elements
                      (10 := blank_element\<lparr>tagName := js ''a'', classList := [js ''btn-danger''],
                               href := HrefObject\<rparr>,
                       6 := (sample_elements 6)\<lparr>value_of := Some []\<rparr>),
        answers := [False]\<rparr>"

text \<open>The sample page with a \<open>span\<close> of class \<open>btn-danger\<close> (11) inside the delete link.\<close>

definition nested_span_page :: state where
  "nested_span_page =
     sample_page
       \<lparr>document := [Elem 0 [Elem 1 [], Elem 2 [Elem 11 []], Elem 3 [],
                              Elem 4 [Elem 5 [], Elem 6 [], Elem 7 [], Elem 8 []],
                              Elem 9 []]],
        elements := sample_elements
                      (11 := blank_element\<lparr>tagName := js ''SPAN'', classList := [js ''btn-danger'']\<rparr>),
        answers := [False]\<rparr>"

text \<open>
  The sample page with a \<open>div\<close> carrying the \<open>required\<close> attribute (11) between the
  two required inputs, the second of which is empty. A \<open>div\<close> has no \<open>value\<close>
  property.
\<close>

definition required_div_page :: state where
  "required_div_page =
     sample_page
       \<lparr>document := [Elem 0 [Elem 1 [], Elem 2 [], Elem 3 [],
                              Elem 4 [Elem 5 [], Elem 11 [], Elem 6 [], Elem 7 [], Elem 8 []],
                              Elem 9 []]],
        elements := sample_elements
                      (11 := blank_element\<lparr>required := True\<rparr>,
                       6 := (sample_elements 6)\<lparr>value_of := Some []\<rparr>)\<rparr>"

text \<open>
  The sample page with a second form (12), holding one required input (13) with value
  \<open>x\<close>, inside the first, whose first required input is empty.
\<close>

definition nested_forms_page :: state where
  "nested_forms_page =
     sample_page
       \<lparr>document := [Elem 0 [Elem 1 [], Elem 2 [], Elem 3 [],
                              Elem 4 [Elem 5 [], Elem 6 [], Elem 7 [], Elem 8 [],
                                      Elem 12 [Elem 13 []]],
                              Elem 9 []]],
        elements := sample_elements
                      (12 := blank_element\<lparr>tagName := js ''FORM''\<rparr>,
                       13 := blank_element\<lparr>tagName := js ''INPUT'', required := True,
                               type_attr := Some (js ''text''), value_of := Some (js ''x'')\<rparr>,
                       5 := (sample_elements 5)\<lparr>value_of := Some []\<rparr>)\<rparr>"

section \<open>Auxiliary facts\<close>

lemma outcome_simps [simp]:
  "outcome (Return x) se = Inr x"
  "outcome (Throw err) se = Inl err"
  "outcome (Document_querySelectorAll sel ks) se = outcome (ks (querySelectorAll (fst se) sel)) se"
  "outcome (Document_querySelector sel ko) se = outcome (ko (querySelector (fst se) sel)) se"
  "outcome (Element_querySelectorAll i sel ks) se =
     outcome (ks (querySelectorAll_in (fst se) i sel)) se"
  "outcome (Get i ke) se = outcome (ke (elements (fst se) i)) se"
  "outcome (Get_nextElementSibling i ko) se = outcome (ko (nextElementSibling (fst se) i)) se"
  "outcome (Set i f p) se = outcome p (update_element i f (fst se), snd se)"
  "outcome (Element_remove i p) se = outcome p (remove_element i (fst se), snd se)"
  "outcome (Element_addEventListener i ty h p) se =
     outcome p (addEventListener (Element i) ty h (fst se), snd se)"
  "outcome (SetTimeout cb delay p) se = outcome p (setTimeout cb delay (fst se), snd se)"
  "outcome (Confirm msg kb) se =
     outcome (kb (fst (confirm msg (fst se)))) (snd (confirm msg (fst se)), snd se)"
  "outcome (Alert msg p) se = outcome p (show_dialog (AlertDialog msg) (fst se), snd se)"
  "outcome (PreventDefault p) se = outcome p (fst se, preventDefault (snd se))"
  by (simp_all add: outcome_def touch_def)

lemma final_simps [simp]:
  "final (Return x) se = se"
  "final (Throw err) se = se"
  "final (Document_querySelectorAll sel ks) se = final (ks (querySelectorAll (fst se) sel)) se"
  "final (Document_querySelector sel ko) se = final (ko (querySelector (fst se) sel)) se"
  "final (Element_querySelectorAll i sel ks) se =
     final (ks (querySelectorAll_in (fst se) i sel)) se"
  "final (Get i ke) se = final (ke (elements (fst se) i)) se"
  "final (Get_nextElementSibling i ko) se = final (ko (nextElementSibling (fst se) i)) se"
  "final (Set i f p) se = final p (update_element i f (fst se), snd se)"
  "final (Element_remove i p) se = final p (remove_element i (fst se), snd se)"
  "final (Element_addEventListener i ty h p) se =
     final p (addEventListener (Element i) ty h (fst se), snd se)"
  "final (SetTimeout cb delay p) se = final p (setTimeout cb delay (fst se), snd se)"
  "final (Confirm msg kb) se =
     final (kb (fst (confirm msg (fst se)))) (snd (confirm msg (fst se)), snd se)"
  "final (Alert msg p) se = final p (show_dialog (AlertDialog msg) (fst se), snd se)"
  "final (PreventDefault p) se = final p (fst se, preventDefault (snd se))"
  by (simp_all add: final_def touch_def)

lemma trace_simps [simp]:
  "trace (Return x) se = []"
  "trace (Throw err) se = []"
  "trace (Document_querySelectorAll sel ks) se = trace (ks (querySelectorAll (fst se) sel)) se"
  "trace (Document_querySelector sel ko) se = trace (ko (querySelector (fst se) sel)) se"
  "trace (Element_querySelectorAll i sel ks) se =
     i # trace (ks (querySelectorAll_in (fst se) i sel)) se"
  "trace (Get i ke) se = i # trace (ke (elements (fst se) i)) se"
  "trace (Get_nextElementSibling i ko) se = i # trace (ko (nextElementSibling (fst se) i)) se"
  "trace (Set i f p) se = i # trace p (update_element i f (fst se), snd se)"
  "trace (Element_remove i p) se = i # trace p (remove_element i (fst se), snd se)"
  "trace (Element_addEventListener i ty h p) se =
     i # trace p (addEventListener (Element i) ty h (fst se), snd se)"
  "trace (SetTimeout cb delay p) se = trace p (setTimeout cb delay (fst se), snd se)"
  "trace (Confirm msg kb) se =
     trace (kb (fst (confirm msg (fst se)))) (snd (confirm msg (fst se)), snd se)"
  "trace (Alert msg p) se = trace p (show_dialog (AlertDialog msg) (fst se), snd se)"
  "trace (PreventDefault p) se = trace p (fst se, preventDefault (snd se))"
  by (simp_all add: trace_def touch_def)

subsection \<open>Closed forms\<close>

lemma run_callback_FadeOut:
  "run_callback (FadeOut a) st =
     setTimeout (RemoveAlert a) 500
       (update_element a
          (\<lambda>el. el\<lparr>style := (style el)\<lparr>transition := js ''opacity 0.5s'', opacity := js ''0''\<rparr>\<rparr>)
          st)"
  by (simp add: run_callback_def run_program_def fade_out_def update_element_def setTimeout_def)

lemma run_callback_RemoveAlert: "run_callback (RemoveAlert a) st = remove_element a st"
  by (simp add: run_callback_def run_program_def remove_alert_def)

lemma run_handler_ConfirmDelete:
  "run_handler ConfirmDelete se =
     (if fst (confirm (js ''Are you sure you want to delete this item?'') (fst se))
      then (snd (confirm (js ''Are you sure you want to delete this item?'') (fst se)), snd se)
      else (snd (confirm (js ''Are you sure you want to delete this item?'') (fst se)),
            preventDefault (snd se)))"
  by (simp add: run_handler_def run_program_def confirm_delete_def)

lemma run_handler_FileInputChange: "run_handler (FileInputChange i) se = se"
  by (simp add: run_handler_def run_program_def file_input_change_def Let_def
      split: option.split)

lemma check_fields_run:
  "outcome (check_fields fs ok rest) (st, e) =
     (case fields_checked fs st ok of
        (st', Inl err) \<Rightarrow> Inl err
      | (st', Inr ok') \<Rightarrow> outcome (rest ok') (st', e))"
  "final (check_fields fs ok rest) (st, e) =
     (case fields_checked fs st ok of
        (st', Inl err) \<Rightarrow> (st', e)
      | (st', Inr ok') \<Rightarrow> final (rest ok') (st', e))"
  by (induction fs st ok rule: fields_checked.induct; simp split: option.split)+

lemma run_handler_ValidateForm: "run_handler (ValidateForm form) se = validated form se"
  by (cases se)
     (auto simp: run_handler_def run_program_def validate_form_def validated_def check_fields_run
        split: prod.splits sum.splits)

lemma set_alert_timers_run:
  "outcome (set_alert_timers as rest) (st, e) =
     outcome rest (st\<lparr>timers := fold (\<lambda>a. enqueue (now st + 5000, FadeOut a)) as (timers st)\<rparr>, e)"
  "final (set_alert_timers as rest) (st, e) =
     final rest (st\<lparr>timers := fold (\<lambda>a. enqueue (now st + 5000, FadeOut a)) as (timers st)\<rparr>, e)"
  by (induction as arbitrary: st; simp add: setTimeout_def)+

lemma add_validations_run:
  "outcome (add_validations fs rest) (st, e) =
     outcome rest (st\<lparr>listeners := listeners st @ map (\<lambda>f. (Element f, Submit, ValidateForm f)) fs\<rparr>, e)"
  "final (add_validations fs rest) (st, e) =
     final rest (st\<lparr>listeners := listeners st @ map (\<lambda>f. (Element f, Submit, ValidateForm f)) fs\<rparr>, e)"
  by (induction fs arbitrary: st; simp add: addEventListener_def)+

lemma add_change_listeners_run:
  "outcome (add_change_listeners is rest) (st, e) =
     outcome rest (st\<lparr>listeners := listeners st @ map (\<lambda>i. (Element i, Change, FileInputChange i)) is\<rparr>, e)"
  "final (add_change_listeners is rest) (st, e) =
     final rest (st\<lparr>listeners := listeners st @ map (\<lambda>i. (Element i, Change, FileInputChange i)) is\<rparr>, e)"
  by (induction "is" arbitrary: st; simp add: addEventListener_def)+

lemma add_confirmations_run:
  "outcome (add_confirmations bs rest) (st, e) =
     (if \<forall>b\<in>set bs. href (elements st b) \<noteq> HrefObject
      then outcome rest
             (st\<lparr>listeners := listeners st @
                   map (\<lambda>b. (Element b, Click, ConfirmDelete))
                     (filter (\<lambda>b. is_delete_link (elements st b)) bs)\<rparr>, e)
      else Inl TypeError)"
  "final (add_confirmations bs rest) (st, e) =
     (if \<forall>b\<in>set bs. href (elements st b) \<noteq> HrefObject
      then final rest
             (st\<lparr>listeners := listeners st @
                   map (\<lambda>b. (Element b, Click, ConfirmDelete))
                     (filter (\<lambda>b. is_delete_link (elements st b)) bs)\<rparr>, e)
      else (st\<lparr>listeners := listeners st @
                   map (\<lambda>b. (Element b, Click, ConfirmDelete))
                     (filter (\<lambda>b. is_delete_link (elements st b))
                        (takeWhile (\<lambda>b. href (elements st b) \<noteq> HrefObject) bs))\<rparr>, e))"
  by (induction bs arbitrary: st;
      simp add: addEventListener_def is_delete_link_def split: href_value.split)+

lemma takeWhile_all: "\<forall>x\<in>set xs. P x \<Longrightarrow> takeWhile P xs = xs"
  by (induction xs) auto

lemma run_handler_Initialize:
  "run_handler Initialize (st, e) =
     (st\<lparr>timers := fold (\<lambda>a. enqueue (now st + 5000, FadeOut a))
                   (querySelectorAll st (Class (js ''alert''))) (timers st),
         listeners := listeners st @ installed st,
         uncaught := uncaught st @ (if init_completes st then [] else [TypeError])\<rparr>, e)"
  by (simp add: run_handler_def run_program_def dom_content_loaded_def set_alert_timers_run
      add_confirmations_run add_validations_run add_change_listeners_run
      querySelectorAll_def installed_def init_completes_def reached_buttons_def takeWhile_all)

lemma page_ready_eq:
  "listeners st = [] \<Longrightarrow>
   page_ready kind st =
     (load_script kind st)
       \<lparr>timers := fold (\<lambda>a. enqueue (now st + 5000, FadeOut a))
                   (querySelectorAll st (Class (js ''alert''))) (timers st),
        listeners := (Document, DOMContentLoaded, Initialize) # installed st,
        uncaught := uncaught st @ (if init_completes st then [] else [TypeError])\<rparr>"
  by (cases kind)
     (simp_all add: page_ready_def dispatch_def event_path_def listeners_on_def load_script_def
       addEventListener_def run_handler_Initialize installed_def querySelectorAll_def
       init_completes_def reached_buttons_def)

lemma listeners_page_ready:
  "listeners pre = [] \<Longrightarrow>
     listeners (page_ready kind pre) = (Document, DOMContentLoaded, Initialize) # installed pre"
  by (simp add: page_ready_eq)

lemma page_ready_fields:
  assumes "listeners pre = []"
  shows "document (page_ready kind pre) = document pre"
    and "detached (page_ready kind pre) = detached pre"
    and "elements (page_ready kind pre) = elements pre"
    and "dialogs (page_ready kind pre) = dialogs pre"
    and "answers (page_ready kind pre) = answers pre"
    and "now (page_ready kind pre) = now pre"
  by (cases kind; simp add: page_ready_eq[OF assms] load_script_def addEventListener_def)+

lemma listeners_on_click:
  "listeners st = (Document, DOMContentLoaded, Initialize) # installed pre \<Longrightarrow>
     listeners_on st (Element b) Click =
       map (\<lambda>x. ConfirmDelete)
         (filter (\<lambda>x. x = b \<and> is_delete_link (elements pre x)) (reached_buttons pre))"
  by (simp add: listeners_on_def installed_def filter_map comp_def conj_commute)

lemma listeners_on_submit:
  "listeners st = (Document, DOMContentLoaded, Initialize) # installed pre \<Longrightarrow>
     listeners_on st (Element f) Submit =
       (if init_completes pre
        then map ValidateForm (filter (\<lambda>x. x = f) (querySelectorAll pre Form)) else [])"
  by (simp add: listeners_on_def installed_def filter_map comp_def)

lemma listeners_on_change:
  "listeners st = (Document, DOMContentLoaded, Initialize) # installed pre \<Longrightarrow>
     listeners_on st (Element i) Change =
       (if init_completes pre
        then map FileInputChange (filter (\<lambda>x. x = i) (querySelectorAll pre InputTypeFile))
        else [])"
  by (simp add: listeners_on_def installed_def filter_map comp_def)

lemma listeners_on_document:
  "listeners st = (Document, DOMContentLoaded, Initialize) # installed pre \<Longrightarrow>
     ty \<noteq> DOMContentLoaded \<Longrightarrow> listeners_on st Document ty = []"
  by (auto simp: listeners_on_def installed_def filter_empty_conv)

lemma filter_eq_distinct:
  "distinct xs \<Longrightarrow> x \<in> set xs \<Longrightarrow> filter (\<lambda>y. y = x) xs = [x]"
  by (induction xs) (auto simp: filter_empty_conv)

lemma distinct_querySelectorAll:
  "distinct (preorder_forest (document st)) \<Longrightarrow> distinct (querySelectorAll st sel)"
  by (simp add: querySelectorAll_def select_in_def)

text \<open>Dispatch when no listener on the path changes the listeners.\<close>

lemma listeners_on_cong: "listeners st' = listeners st \<Longrightarrow> listeners_on st' t ty = listeners_on st t ty"
  by (simp add: listeners_on_def)

lemma fold_run_handler_listeners:
  assumes "\<And>h se. h \<in> set hs \<Longrightarrow> listeners (fst (run_handler h se)) = listeners (fst se)"
  shows "listeners (fst (fold run_handler hs se)) = listeners (fst se)"
  using assms by (induction hs arbitrary: se) simp_all

lemma dispatch_flat:
  assumes "\<And>h t se. t \<in> set path \<Longrightarrow> h \<in> set (listeners_on st t ty) \<Longrightarrow>
             listeners (fst (run_handler h se)) = listeners (fst se)"
    and "listeners (fst se) = listeners st"
  shows "fold (\<lambda>current se'. fold run_handler (listeners_on (fst se') current ty) se') path se =
         fold run_handler (concat (map (\<lambda>t. listeners_on st t ty) path)) se"
  using assms
proof (induction path arbitrary: se)
  case Nil
  then show ?case by simp
next
  case (Cons t path)
  have on: "listeners_on (fst se) t ty = listeners_on st t ty"
    using Cons.prems(2) by (rule listeners_on_cong)
  let ?se = "fold run_handler (listeners_on st t ty) se"
  have "listeners (fst ?se) = listeners (fst se)"
    by (rule fold_run_handler_listeners) (rule Cons.prems(1), simp_all)
  then have keep: "listeners (fst ?se) = listeners st"
    using Cons.prems(2) by simp
  have "fold (\<lambda>current se'. fold run_handler (listeners_on (fst se') current ty) se') path ?se =
        fold run_handler (concat (map (\<lambda>t. listeners_on st t ty) path)) ?se"
    by (rule Cons.IH) (use Cons.prems keep in auto)
  then show ?case by (simp add: on)
qed

lemma starts_with_iff: "starts_with s n \<longleftrightarrow> (\<exists>q. s = n @ q)"
  by (induction s n rule: starts_with.induct) auto


lemma fields_checked_queues:
  "listeners (fst (fields_checked fs st ok)) = listeners st \<and>
   timers (fst (fields_checked fs st ok)) = timers st \<and>
   document (fst (fields_checked fs st ok)) = document st \<and>
   detached (fst (fields_checked fs st ok)) = detached st \<and>
   dialogs (fst (fields_checked fs st ok)) = dialogs st \<and>
   answers (fst (fields_checked fs st ok)) = answers st \<and>
   uncaught (fst (fields_checked fs st ok)) = uncaught st"
  by (induction fs st ok rule: fields_checked.induct)
     (auto simp: update_element_def split: option.splits)

lemma validated_queues:
  "listeners (fst (validated form se)) = listeners (fst se) \<and>
   timers (fst (validated form se)) = timers (fst se) \<and>
   document (fst (validated form se)) = document (fst se) \<and>
   detached (fst (validated form se)) = detached (fst se) \<and>
   answers (fst (validated form se)) = answers (fst se)"
  using fields_checked_queues[of "querySelectorAll_in (fst se) form Required" "fst se" True]
  by (auto simp: validated_def show_dialog_def split: prod.splits sum.splits)

lemma run_handler_listeners:
  "h \<noteq> Initialize \<Longrightarrow> listeners (fst (run_handler h se)) = listeners (fst se)"
  by (cases h)
     (simp_all add: run_handler_ConfirmDelete run_handler_FileInputChange
        run_handler_ValidateForm validated_queues confirm_def show_dialog_def)

lemma installed_not_Initialize:
  "listeners st = (Document, DOMContentLoaded, Initialize) # installed pre \<Longrightarrow>
     ty \<noteq> DOMContentLoaded \<Longrightarrow> h \<in> set (listeners_on st t ty) \<Longrightarrow> h \<noteq> Initialize"
  by (auto simp: listeners_on_def installed_def split: if_splits)

lemma dispatch_eq:
  assumes "listeners st = (Document, DOMContentLoaded, Initialize) # installed pre"
    and "ty \<noteq> DOMContentLoaded"
  shows "dispatch tgt ty (st, e) =
           fold run_handler (concat (map (\<lambda>t. listeners_on st t ty) (event_path st tgt))) (st, e)"
  unfolding dispatch_def fst_conv
  by (rule dispatch_flat)
     (use assms in \<open>auto intro: run_handler_listeners dest: installed_not_Initialize\<close>)

lemma dispatch_no_listeners:
  "\<forall>t\<in>set (event_path st tgt). listeners_on st t ty = [] \<Longrightarrow> dispatch tgt ty (st, e) = (st, e)"
proof -
  have "\<forall>t\<in>set path. listeners_on st t ty = [] \<Longrightarrow>
        fold (\<lambda>current se'. fold run_handler (listeners_on (fst se') current ty) se') path (st, e) =
          (st, e)" for path
    by (induction path) simp_all
  then show "\<forall>t\<in>set (event_path st tgt). listeners_on st t ty = [] \<Longrightarrow>
             dispatch tgt ty (st, e) = (st, e)"
    by (simp add: dispatch_def)
qed

lemma path_in_head: "path_in i f = Some p \<Longrightarrow> \<exists>q. p = i # q"
  by (induction i f arbitrary: p rule: path_in.induct)
     (auto split: if_splits option.splits)

lemma event_path_head: "\<exists>rest. event_path st tgt = tgt # rest"
  by (cases tgt) (auto simp: event_path_def split: option.splits dest: path_in_head)

lemma event_path_split: "event_path st tgt = tgt # tl (event_path st tgt)"
  using event_path_head[of st tgt] by auto

subsection \<open>Clicks\<close>




lemma sample_fields [simp]:
  "document sample_page = [Elem 0 [Elem 1 [], Elem 2 [], Elem 3 [],
                           Elem 4 [Elem 5 [], Elem 6 [], Elem 7 [], Elem 8 []],
                           Elem 9 []]]"
  "detached sample_page = []"
  "elements sample_page = sample_elements"
  "listeners sample_page = []"
  "timers sample_page = []"
  "now sample_page = 0"
  "dialogs sample_page = []"
  "answers sample_page = []"
  "uncaught sample_page = []"
  "window sample_page = Map.empty"
  by (simp_all add: sample_page_def)

lemmas sample_data = sample_elements_def blank_element_def js_def ascii_lower_def
  querySelectorAll_def select_in_def is_delete_link_def

lemma sample_installed:
  "installed sample_page =
     [(Element 2, Click, ConfirmDelete), (Element 4, Submit, ValidateForm 4),
      (Element 7, Change, FileInputChange 7)]"
  by (simp add: installed_def reached_buttons_def init_completes_def sample_data)


lemma svg_installed: "installed svg_page = []"
  by (simp add: installed_def reached_buttons_def init_completes_def svg_page_def sample_data)

lemma nested_span_installed:
  "installed nested_span_page =
     [(Element 2, Click, ConfirmDelete), (Element 4, Submit, ValidateForm 4),
      (Element 7, Change, FileInputChange 7)]"
  by (simp add: installed_def reached_buttons_def init_completes_def nested_span_page_def
      sample_data)

lemma all_dropWhile: "(\<forall>x\<in>set (dropWhile P s). P x) \<longleftrightarrow> (\<forall>x\<in>set s. P x)"
  by (induction s) auto

lemma trim_empty_iff: "trim s = [] \<longleftrightarrow> (\<forall>c\<in>set s. is_white_space c)"
  by (simp add: trim_def dropWhile_eq_Nil_conv all_dropWhile)

lemma mark_field_idem [simp]: "mark_field (mark_field el) = mark_field el"
  by (simp add: mark_field_def split: option.split)

lemma value_of_mark_field [simp]: "value_of (mark_field el) = value_of el"
  by (simp add: mark_field_def split: option.split)

lemma is_blank_mark_field [simp]: "is_blank (mark_field el) = is_blank el"
  by (simp add: is_blank_def)

lemma fields_checked_strings:
  "\<forall>f\<in>set fs. value_of (elements st f) \<noteq> None \<Longrightarrow>
   fields_checked fs st ok =
     (st\<lparr>elements := (\<lambda>i. if i \<in> set fs then mark_field (elements st i) else elements st i)\<rparr>,
      Inr (ok \<and> (\<forall>f\<in>set fs. \<not> is_blank (elements st f))))"
proof (induction fs arbitrary: st ok)
  case Nil
  then show ?case by simp
next
  case (Cons f fs)
  from Cons.prems obtain v where v: "value_of (elements st f) = Some v" by auto
  let ?c = "if trim v = [] then js ''#ef4444'' else js ''#e5e7eb''"
  let ?st = "update_element f (\<lambda>el. el\<lparr>style := (style el)\<lparr>borderColor := ?c\<rparr>\<rparr>) st"
  have els: "elements ?st = (elements st)(f := mark_field (elements st f))"
    using v by (simp add: update_element_def mark_field_def)
  have pre: "\<forall>g\<in>set fs. value_of (elements ?st g) \<noteq> None"
    using Cons.prems by (simp add: els)
  have step: "fields_checked (f # fs) st ok = fields_checked fs ?st (ok \<and> trim v \<noteq> [])"
    using v by simp
  have blank: "is_blank (elements st f) \<longleftrightarrow> trim v = []"
    using v by (simp add: is_blank_def)
  have "(\<lambda>i. if i \<in> set fs then mark_field (elements ?st i) else elements ?st i) =
        (\<lambda>i. if i \<in> set (f # fs) then mark_field (elements st i) else elements st i)"
    by (rule ext) (simp add: els)
  moreover have "(\<forall>g\<in>set fs. \<not> is_blank (elements ?st g)) \<longleftrightarrow>
                 (\<forall>g\<in>set fs. \<not> is_blank (elements st g))"
    by (auto simp: els)
  ultimately show ?case
    unfolding step Cons.IH[OF pre]
    by (auto simp: update_element_def blank)
qed

lemma validated_strings:
  assumes "\<forall>f\<in>set (querySelectorAll_in st form Required). value_of (elements st f) \<noteq> None"
  shows "validated form (st, e) =
     (let fs = querySelectorAll_in st form Required;
          st' = st\<lparr>elements := (\<lambda>i. if i \<in> set fs then mark_field (elements st i) else elements st i)\<rparr>
      in if \<exists>f\<in>set fs. is_blank (elements st f)
         then (show_dialog (AlertDialog (js ''Please fill in all required fields.'')) st',
               preventDefault e)
         else (st', e))"
  by (simp add: validated_def Let_def fields_checked_strings[OF assms])

text \<open>
  A required element whose value is not a string makes the listener throw: the event is
  left as it was, no dialog is shown, and the exception is reported.
\<close>

lemma fields_checked_throws_iff:
  "(\<exists>err. snd (fields_checked fs st ok) = Inl err) \<longleftrightarrow>
     (\<exists>f\<in>set fs. value_of (elements st f) = None)"
proof (induction fs st ok rule: fields_checked.induct)
  case (1 st isValid)
  then show ?case by simp
next
  case (2 field more_fields st isValid)
  show ?case
  proof (cases "value_of (elements st field)")
    case None
    then show ?thesis by auto
  next
    case (Some v)
    have keep: "value_of (elements (update_element field
                   (\<lambda>el. el\<lparr>style := (style el)\<lparr>borderColor := c\<rparr>\<rparr>) st) g) =
                value_of (elements st g)" for c g
      by (simp add: update_element_def)
    show ?thesis
    proof (cases "trim v = []")
      case True
      with Some 2(1)[OF Some True] show ?thesis by (auto simp: keep)
    next
      case False
      with Some 2(2)[OF Some False] show ?thesis by (auto simp: keep)
    qed
  qed
qed

lemma validated_throws:
  assumes "\<exists>f\<in>set (querySelectorAll_in st form Required). value_of (elements st f) = None"
  shows "snd (validated form (st, e)) = e \<and>
         dialogs (fst (validated form (st, e))) = dialogs st \<and>
         uncaught (fst (validated form (st, e))) = uncaught st @ [TypeError]"
proof -
  from assms obtain err where
    "snd (fields_checked (querySelectorAll_in st form Required) st True) = Inl err"
    using fields_checked_throws_iff by blast
  moreover have "err = TypeError" by (cases err) simp
  ultimately show ?thesis
    using fields_checked_queues[of "querySelectorAll_in st form Required" st True]
    by (auto simp: validated_def split: prod.splits sum.splits)
qed

text \<open>Whatever a submit listener does to an element, it marks it or leaves it.\<close>

lemma fields_checked_marks:
  "elements (fst (fields_checked fs st ok)) i = elements st i \<or>
   elements (fst (fields_checked fs st ok)) i = mark_field (elements st i)"
proof (induction fs st ok rule: fields_checked.induct)
  case (1 st isValid)
  then show ?case by simp
next
  case (2 field more_fields st isValid)
  show ?case
  proof (cases "value_of (elements st field)")
    case None
    then show ?thesis by simp
  next
    case (Some v)
    let ?c = "if trim v = [] then js ''#ef4444'' else js ''#e5e7eb''"
    let ?st = "update_element field (\<lambda>el. el\<lparr>style := (style el)\<lparr>borderColor := ?c\<rparr>\<rparr>) st"
    have els: "elements ?st = (elements st)(field := mark_field (elements st field))"
      using Some by (simp add: update_element_def mark_field_def)
    show ?thesis
    proof (cases "trim v = []")
      case True
      then have step: "fields_checked (field # more_fields) st isValid =
                         fields_checked more_fields ?st False"
        using Some by simp
      from 2(1)[OF Some True] True
      have "elements (fst (fields_checked more_fields ?st False)) i = elements ?st i \<or>
            elements (fst (fields_checked more_fields ?st False)) i = mark_field (elements ?st i)"
        by simp
      then show ?thesis
        unfolding step by (cases "i = field") (auto simp: els)
    next
      case False
      then have step: "fields_checked (field # more_fields) st isValid =
                         fields_checked more_fields ?st isValid"
        using Some by simp
      from 2(2)[OF Some False] False
      have "elements (fst (fields_checked more_fields ?st isValid)) i = elements ?st i \<or>
            elements (fst (fields_checked more_fields ?st isValid)) i =
              mark_field (elements ?st i)"
        by simp
      then show ?thesis
        unfolding step by (cases "i = field") (auto simp: els)
    qed
  qed
qed

lemma validated_marks:
  "elements (fst (validated form se)) i = elements (fst se) i \<or>
   elements (fst (validated form se)) i = mark_field (elements (fst se) i)"
  using fields_checked_marks[of "querySelectorAll_in (fst se) form Required" "fst se" True i]
  by (auto simp: validated_def show_dialog_def split: prod.splits sum.splits)

lemma fold_validated_marked:
  assumes "\<forall>h\<in>set hs. \<exists>form. h = ValidateForm form"
    and "elements (fst se) i = mark_field el"
  shows "elements (fst (fold run_handler hs se)) i = mark_field el"
  using assms
proof (induction hs arbitrary: se)
  case Nil
  then show ?case by simp
next
  case (Cons h hs)
  from Cons.prems(1) obtain form where h: "h = ValidateForm form" by auto
  have "elements (fst (run_handler h se)) i = mark_field el"
    using validated_marks[of form se i] Cons.prems(2) by (auto simp: h run_handler_ValidateForm)
  then show ?case using Cons.IH Cons.prems(1) by simp
qed

lemma filter_eq_head: "x \<in> set xs \<Longrightarrow> \<exists>r. filter (\<lambda>y. y = x) xs = x # r"
  by (induction xs) auto

lemma submit_listeners_validate:
  "listeners st = (Document, DOMContentLoaded, Initialize) # installed pre \<Longrightarrow>
     h \<in> set (listeners_on st t Submit) \<Longrightarrow> \<exists>form. h = ValidateForm form"
  by (auto simp: listeners_on_def installed_def split: if_splits)

lemma dispatch_submit:
  assumes "listeners pre = []"
    and "init_completes pre"
    and "distinct (preorder_forest (document pre))"
    and "form \<in> set (querySelectorAll pre Form)"
    and "listeners st = listeners (page_ready kind pre)"
    and "\<forall>t\<in>set (tl (event_path st (Element form))). listeners_on st t Submit = []"
  shows "dispatch (Element form) Submit (st, e) = validated form (st, e)"
proof -
  have l: "listeners st = (Document, DOMContentLoaded, Initialize) # installed pre"
    using assms by (simp add: listeners_page_ready)
  have own: "listeners_on st (Element form) Submit = [ValidateForm form]"
    using assms(2,3,4)
    by (simp add: listeners_on_submit[OF l] filter_eq_distinct distinct_querySelectorAll)
  have "concat (map (\<lambda>t. listeners_on st t Submit) (event_path st (Element form))) =
          [ValidateForm form]"
    using assms(6) by (subst event_path_split) (simp add: own)
  then show ?thesis
    using dispatch_eq[OF l, of Submit "Element form" e] by (simp add: run_handler_ValidateForm)
qed

lemma page_ready_queries:
  assumes "listeners pre = []"
  shows "querySelectorAll_in (page_ready kind pre) f sel = querySelectorAll_in pre f sel"
    and "querySelectorAll (page_ready kind pre) sel = querySelectorAll pre sel"
    and "event_path (page_ready kind pre) t = event_path pre t"
    and "nextElementSibling (page_ready kind pre) i = nextElementSibling pre i"
  by (simp_all add: querySelectorAll_in_def querySelectorAll_def event_path_def
      nextElementSibling_def page_ready_fields[OF assms]
      cong: option.case_cong target.case_cong)

lemma sample_form: "4 \<in> set (querySelectorAll sample_page Form)"
  by (simp add: sample_data)

lemma sample_init: "init_completes sample_page"
  by (simp add: init_completes_def sample_data)

lemma sample_required:
  "querySelectorAll_in (page_ready Classic sample_page) 4 Required = [5, 6]"
  by (simp add: page_ready_queries) (simp add: querySelectorAll_in_def descendants_def sample_data)

lemma sample_values:
  "value_of (elements (page_ready Classic sample_page) 5) = Some (js '' '')"
  "value_of (elements (page_ready Classic sample_page) 6) = Some (js ''bob'')"
  by (simp_all add: page_ready_fields sample_elements_def blank_element_def)

lemma sample_trims: "trim (js '' '') = []" "trim (js ''bob'') \<noteq> []" "trim (js ''x'') \<noteq> []"
  "trim [] = []"
  by (simp_all add: trim_def js_def is_white_space_def)

lemma sample_form_path:
  "event_path (page_ready Classic sample_page) (Element 4) = [Element 4, Element 0, Document]"
  by (simp add: page_ready_queries) (simp add: event_path_def)

lemma sample_form_alone:
  "\<forall>t\<in>set (tl (event_path (page_ready Classic sample_page) (Element 4))).
     listeners_on (page_ready Classic sample_page) t Submit = []"
  by (simp add: sample_form_path listeners_on_def listeners_page_ready sample_installed)

lemma sample_strings:
  "\<forall>f\<in>set (querySelectorAll_in (page_ready Classic sample_page) 4 Required).
     value_of (elements (page_ready Classic sample_page) f) \<noteq> None"
  by (simp add: sample_required sample_values)

subsection \<open>Pages where the submit listener is missing, throws, or is not alone\<close>

lemma required_div_facts:
  "listeners required_div_page = []"
  "init_completes required_div_page"
  "distinct (preorder_forest (document required_div_page))"
  "4 \<in> set (querySelectorAll required_div_page Form)"
  "querySelectorAll_in required_div_page 4 Required = [5, 11, 6]"
  "event_path required_div_page (Element 4) = [Element 4, Element 0, Document]"
  "installed required_div_page =
     [(Element 2, Click, ConfirmDelete), (Element 4, Submit, ValidateForm 4),
      (Element 7, Change, FileInputChange 7)]"
  "value_of (elements required_div_page 5) = Some (js '' '')"
  "value_of (elements required_div_page 11) = None"
  "value_of (elements required_div_page 6) = Some []"
  "dialogs required_div_page = []"
  by (simp_all add: required_div_page_def init_completes_def installed_def reached_buttons_def
      querySelectorAll_in_def descendants_def event_path_def sample_data)

lemma svg_facts:
  "listeners svg_page = []"
  "4 \<in> set (querySelectorAll svg_page Form)"
  "querySelectorAll_in svg_page 4 Required = [5, 6]"
  "event_path svg_page (Element 4) = [Element 4, Element 0, Document]"
  "event_path svg_page (Element 2) = [Element 2, Element 0, Document]"
  "value_of (elements svg_page 6) = Some []"
  "2 \<in> set (querySelectorAll svg_page (Class (js ''btn-danger'')))"
  "href (elements svg_page 2) = HrefString (js ''http://host/items/delete/3'')"
  "answers svg_page = [False]"
  by (simp_all add: svg_page_def querySelectorAll_in_def descendants_def event_path_def
      sample_data)

lemma nested_forms_facts:
  "listeners nested_forms_page = []"
  "12 \<in> set (querySelectorAll nested_forms_page Form)"
  "querySelectorAll_in nested_forms_page 12 Required = [13]"
  "querySelectorAll_in nested_forms_page 4 Required = [5, 6, 13]"
  "event_path nested_forms_page (Element 12) = [Element 12, Element 4, Element 0, Document]"
  "installed nested_forms_page =
     [(Element 2, Click, ConfirmDelete), (Element 4, Submit, ValidateForm 4),
      (Element 12, Submit, ValidateForm 12), (Element 7, Change, FileInputChange 7)]"
  "value_of (elements nested_forms_page 13) = Some (js ''x'')"
  "value_of (elements nested_forms_page 5) = Some []"
  "value_of (elements nested_forms_page 6) = Some (js ''bob'')"
  "dialogs nested_forms_page = []"
  by (simp_all add: nested_forms_page_def init_completes_def installed_def reached_buttons_def
      querySelectorAll_in_def descendants_def event_path_def sample_data)

lemma matches_mark_field [simp]: "matches sel (mark_field el) = matches sel el"
  by (cases sel) (simp_all add: mark_field_def split: option.split)

lemma validated_keeps:
  "value_of (elements (fst (validated g se)) i) = value_of (elements (fst se) i)"
  "is_blank (elements (fst (validated g se)) i) = is_blank (elements (fst se) i)"
  "querySelectorAll_in (fst (validated g se)) f sel = querySelectorAll_in (fst se) f sel"
proof -
  have m: "elements (fst (validated g se)) j = elements (fst se) j \<or>
           elements (fst (validated g se)) j = mark_field (elements (fst se) j)" for j
    by (rule validated_marks)
  show "value_of (elements (fst (validated g se)) i) = value_of (elements (fst se) i)"
    using m[of i] by auto
  show "is_blank (elements (fst (validated g se)) i) = is_blank (elements (fst se) i)"
    using m[of i] by auto
  have "matches sel (elements (fst (validated g se)) j) = matches sel (elements (fst se) j)" for j
    using m[of j] by auto
  then show "querySelectorAll_in (fst (validated g se)) f sel = querySelectorAll_in (fst se) f sel"
    by (simp add: querySelectorAll_in_def select_in_def validated_queues)
qed

lemma validated_summary:
  assumes "\<forall>f\<in>set (querySelectorAll_in (fst se) form Required). value_of (elements (fst se) f) \<noteq> None"
  shows "snd (validated form se) =
           (if \<exists>f\<in>set (querySelectorAll_in (fst se) form Required). is_blank (elements (fst se) f)
            then preventDefault (snd se) else snd se)"
    and "dialogs (fst (validated form se)) =
           (if \<exists>f\<in>set (querySelectorAll_in (fst se) form Required). is_blank (elements (fst se) f)
            then dialogs (fst se) @ [AlertDialog (js ''Please fill in all required fields.'')]
            else dialogs (fst se))"
  using assms validated_strings[of "fst se" form "snd se"]
  by (simp_all add: Let_def show_dialog_def)

lemma ready_listeners:
  "listeners pre = [] \<Longrightarrow>
     listeners (page_ready Classic pre) = (Document, DOMContentLoaded, Initialize) # installed pre"
  by (rule listeners_page_ready)

lemma required_div_submit:
  "dispatch (Element 4) Submit (page_ready Classic required_div_page, e) =
     validated 4 (page_ready Classic required_div_page, e)"
proof -
  let ?R = "page_ready Classic required_div_page"
  note r = required_div_facts
  have lR: "listeners ?R = (Document, DOMContentLoaded, Initialize) # installed required_div_page"
    by (rule listeners_page_ready) (rule r)
  have aR: "\<forall>t\<in>set (tl (event_path ?R (Element 4))). listeners_on ?R t Submit = []"
    by (simp add: page_ready_queries[OF r(1)] r listeners_on_def lR)
  show ?thesis
    by (rule dispatch_submit[OF r(1-4) refl aR])
qed

lemma svg_submit:
  "dispatch (Element 4) Submit (page_ready Classic svg_page, e) =
     (page_ready Classic svg_page, e)"
proof -
  note s = svg_facts
  have lS: "listeners (page_ready Classic svg_page) = [(Document, DOMContentLoaded, Initialize)]"
    by (simp add: listeners_page_ready[OF s(1)] svg_installed)
  show ?thesis
    by (rule dispatch_no_listeners)
       (simp add: page_ready_queries[OF s(1)] s listeners_on_def lS)
qed

subsection \<open>File inputs\<close>

lemma file_input_change_returns:
  "outcome (file_input_change i) se = Inr ()" "final (file_input_change i) se = se"
  by (simp_all add: file_input_change_def Let_def split: option.split)

lemma change_listeners:
  "listeners st = (Document, DOMContentLoaded, Initialize) # installed pre \<Longrightarrow>
     h \<in> set (listeners_on st t Change) \<Longrightarrow> \<exists>i. h = FileInputChange i"
  by (auto simp: listeners_on_def installed_def split: if_splits)

lemma fold_run_FileInputChange:
  "\<forall>h\<in>set hs. \<exists>i. h = FileInputChange i \<Longrightarrow> fold run_handler hs se = se"
  by (induction hs) (auto simp: run_handler_FileInputChange)

subsection \<open>Alert timers\<close>

lemma faded_idem [simp]: "faded (faded el) = faded el"
  by (simp add: faded_def)

lemma enqueue_last: "\<forall>u\<in>set q. fst u \<le> fst x \<Longrightarrow> enqueue x q = q @ [x]"
  by (induction q) auto

lemma fold_enqueue_same:
  "\<forall>u\<in>set q. fst u \<le> d \<Longrightarrow>
     fold (\<lambda>a. enqueue (d, f a)) as q = q @ map (\<lambda>a. (d, f a)) as"
  by (induction as arbitrary: q) (simp_all add: enqueue_last)

lemma timers_page_ready:
  "listeners pre = [] \<Longrightarrow> timers pre = [] \<Longrightarrow>
     timers (page_ready kind pre) =
       map (\<lambda>a. (now pre + 5000, FadeOut a)) (querySelectorAll pre (Class (js ''alert'')))"
  by (cases kind) (simp_all add: page_ready_eq fold_enqueue_same load_script_def addEventListener_def)

lemma set_remove_from:
  "set (preorder_forest (remove_from i f)) \<subseteq> set (preorder_forest f) - {i}"
  by (induction i f rule: remove_from.induct) auto

lemma fold_remove_from_keeps_out:
  "a \<notin> set (preorder_forest doc) \<Longrightarrow> a \<notin> set (preorder_forest (fold remove_from xs doc))"
proof (induction xs arbitrary: doc)
  case Nil
  then show ?case by simp
next
  case (Cons x xs)
  from Cons.prems have "a \<notin> set (preorder_forest (remove_from x doc))"
    using set_remove_from[of x doc] by auto
  then show ?case using Cons.IH by simp
qed

lemma fold_remove_from_removes:
  "a \<in> set xs \<Longrightarrow> a \<notin> set (preorder_forest (fold remove_from xs doc))"
proof (induction xs arbitrary: doc)
  case Nil
  then show ?case by simp
next
  case (Cons x xs)
  show ?case
  proof (cases "x = a")
    case True
    have "a \<notin> set (preorder_forest (remove_from a doc))"
      using set_remove_from[of a doc] by auto
    then show ?thesis using True by (simp add: fold_remove_from_keeps_out)
  next
    case False
    with Cons.prems have "a \<in> set xs" by simp
    then show ?thesis using Cons.IH by simp
  qed
qed

lemma find_in_forest_None:
  "find_in_forest i f = None \<Longrightarrow> remove_from i f = f"
  by (induction i f rule: remove_from.induct) (auto split: option.splits if_splits)

lemma remove_element_fields:
  "document (remove_element i st) = remove_from i (document st)"
  "elements (remove_element i st) = elements st"
  "timers (remove_element i st) = timers st"
  "now (remove_element i st) = now st"
  "listeners (remove_element i st) = listeners st"
  by (simp_all add: remove_element_def find_in_forest_None split: option.split)

lemma advance_before:
  assumes "timers st = fade_queue T as bs" and "t < T + 5000"
  shows "advance t st = st\<lparr>now := max (now st) t\<rparr>"
proof (cases as)
  case Nil
  then show ?thesis using assms
    by (cases bs) (simp_all add: advance.simps[of t st] fade_queue_def)
next
  case (Cons a as')
  then show ?thesis using assms
    by (simp add: advance.simps[of t st] fade_queue_def)
qed

lemma advance_removals_pending:
  assumes "timers st = fade_queue T [] bs" and "t < T + 5500"
  shows "advance t st = st\<lparr>now := max (now st) t\<rparr>"
  using assms by (cases bs) (simp_all add: advance.simps[of t st] fade_queue_def)

lemma fade_step:
  assumes "timers st = fade_queue T (a # as) bs" and "now st \<le> T + 5000"
  shows "run_callback (FadeOut a) (st\<lparr>timers := fade_queue T as bs, now := max (now st) (T + 5000)\<rparr>) =
           st\<lparr>timers := fade_queue T as (bs @ [a]),
              elements := (elements st)(a := faded (elements st a)),
              now := T + 5000\<rparr>"
proof -
  have m: "max (now st) (T + 5000) = T + 5000" using assms(2) by simp
  have "enqueue (T + 5000 + 500, RemoveAlert a) (fade_queue T as bs) =
          fade_queue T as bs @ [(T + 5500, RemoveAlert a)]"
    by (rule trans[OF enqueue_last]) (auto simp: fade_queue_def)
  then show ?thesis
    by (simp add: run_callback_FadeOut setTimeout_def update_element_def m faded_def fade_queue_def)
qed

lemma advance_fading:
  assumes "timers st = fade_queue T as bs" and "now st \<le> T + 5000"
    and "T + 5000 \<le> t" and "t < T + 5500"
  shows "advance t st =
           st\<lparr>timers := fade_queue T [] (bs @ as),
              elements := (\<lambda>i. if i \<in> set as then faded (elements st i) else elements st i),
              now := max (now st) t\<rparr>"
  using assms(1,2)
proof (induction as arbitrary: st bs)
  case Nil
  then show ?case using advance_removals_pending[OF _ assms(4), of st bs] by simp
next
  case (Cons a as)
  let ?st = "st\<lparr>timers := fade_queue T as (bs @ [a]),
              elements := (elements st)(a := faded (elements st a)),
              now := T + 5000\<rparr>"
  have "advance t st = advance t ?st"
    using Cons.prems assms(3) fade_step[OF Cons.prems]
    by (subst advance.simps) (simp add: fade_queue_def)
  also have "\<dots> = ?st\<lparr>timers := fade_queue T [] ((bs @ [a]) @ as),
              elements := (\<lambda>i. if i \<in> set as then faded (elements ?st i) else elements ?st i),
              now := max (now ?st) t\<rparr>"
    by (rule Cons.IH) simp_all
  also have "\<dots> = st\<lparr>timers := fade_queue T [] (bs @ a # as),
              elements := (\<lambda>i. if i \<in> set (a # as) then faded (elements st i) else elements st i),
              now := max (now st) t\<rparr>"
  proof -
    have "(\<lambda>i. if i \<in> set as then faded (elements ?st i) else elements ?st i) =
          (\<lambda>i. if i \<in> set (a # as) then faded (elements st i) else elements st i)"
      by (rule ext) simp
    moreover have "max (T + 5000) t = max (now st) t"
      using Cons.prems(2) assms(3) by simp
    ultimately show ?thesis by simp
  qed
  finally show ?case .
qed

lemma advance_removing:
  assumes "timers st = fade_queue T [] bs" and "T + 5500 \<le> t"
  shows "timers (advance t st) = [] \<and>
         document (advance t st) = fold remove_from bs (document st) \<and>
         elements (advance t st) = elements st \<and>
         now (advance t st) = max (now st) t"
  using assms(1)
proof (induction bs arbitrary: st)
  case Nil
  then show ?case by (simp add: advance.simps[of t st] fade_queue_def)
next
  case (Cons b bs)
  let ?st = "remove_element b (st\<lparr>timers := fade_queue T [] bs, now := max (now st) (T + 5500)\<rparr>)"
  have a: "advance t st = advance t ?st"
    using Cons.prems assms(2)
    by (subst advance.simps) (simp add: fade_queue_def run_callback_RemoveAlert)
  have "timers ?st = fade_queue T [] bs"
    by (simp add: remove_element_fields)
  from Cons.IH[OF this] show ?case
    using assms(2) by (simp add: a remove_element_fields)
qed

lemma advance_removed:
  assumes "timers st = fade_queue T as bs" and "now st \<le> T + 5000" and "T + 5500 \<le> t"
  shows "timers (advance t st) = [] \<and>
         document (advance t st) = fold remove_from (bs @ as) (document st) \<and>
         elements (advance t st) =
           (\<lambda>i. if i \<in> set as then faded (elements st i) else elements st i) \<and>
         now (advance t st) = max (now st) t"
  using assms(1,2)
proof (induction as arbitrary: st bs)
  case Nil
  then show ?case using advance_removing[OF _ assms(3), of st bs] by simp
next
  case (Cons a as)
  let ?st = "st\<lparr>timers := fade_queue T as (bs @ [a]),
              elements := (elements st)(a := faded (elements st a)),
              now := T + 5000\<rparr>"
  have a: "advance t st = advance t ?st"
    using Cons.prems assms(3) fade_step[OF Cons.prems]
    by (subst advance.simps) (simp add: fade_queue_def)
  have e: "(\<lambda>i. if i \<in> set as then faded (elements ?st i) else elements ?st i) =
          (\<lambda>i. if i \<in> set (a # as) then faded (elements st i) else elements st i)"
    by (rule ext) simp
  have m: "max (T + 5000) t = max (now st) t"
    using Cons.prems(2) assms(3) by simp
  have "timers ?st = fade_queue T as (bs @ [a])" "now ?st \<le> T + 5000" by simp_all
  from Cons.IH[OF this] show ?case
    unfolding a e using m by simp
qed

lemma timers_as_fade_queue:
  assumes "listeners pre = []" and "timers pre = []"
    and "timers st = timers (page_ready kind pre)"
  shows "timers st = fade_queue (now pre) (querySelectorAll pre (Class (js ''alert''))) []"
  using assms by (simp add: timers_page_ready fade_queue_def)

lemma sample_alerts: "querySelectorAll sample_page (Class (js ''alert'')) = [1]"
  by (simp add: sample_data)

subsection \<open>The mobile menu\<close>

lemma toggle_member: "tok \<in> set (toggle tok cl) \<longleftrightarrow> tok \<notin> set cl"
  by (simp add: toggle_def)

lemma toggle_other: "c \<noteq> tok \<Longrightarrow> c \<in> set (toggle tok cl) \<longleftrightarrow> c \<in> set cl"
  by (simp add: toggle_def)

lemma toggle_twice_set: "set (toggle tok (toggle tok cl)) = set cl"
  by (auto simp: toggle_def)

lemma toggle_twice_absent: "tok \<notin> set cl \<Longrightarrow> toggle tok (toggle tok cl) = cl"
  by (simp add: toggle_def)

lemma sidebar_not_mobile_open: "js ''sidebar'' \<noteq> js ''mobile-open''"
  by (simp add: js_def)

lemma querySelector_toggled:
  "querySelector
     (update_element i (\<lambda>el. el\<lparr>classList := toggle (js ''mobile-open'') (classList el)\<rparr>) st)
     (Class (js ''sidebar'')) = querySelector st (Class (js ''sidebar''))"
proof -
  have "matches (Class (js ''sidebar''))
          (((elements st)(i := (elements st i)
              \<lparr>classList := toggle (js ''mobile-open'') (classList (elements st i))\<rparr>)) j)
        = matches (Class (js ''sidebar'')) (elements st j)" for j
    using sidebar_not_mobile_open by (simp add: toggle_other)
  then show ?thesis
    by (simp add: querySelector_def querySelectorAll_def select_in_def update_element_def)
qed

lemma toggleMobileMenu_twice:
  assumes "querySelector st (Class (js ''sidebar'')) = Some sidebar"
  shows "toggleMobileMenu (toggleMobileMenu st) =
           update_element sidebar
             (\<lambda>el. el\<lparr>classList :=
                      toggle (js ''mobile-open'') (toggle (js ''mobile-open'') (classList el))\<rparr>) st"
  using assms
  by (simp add: toggleMobileMenu_def querySelector_toggled) (simp add: update_element_def)

lemma sample_sidebar: "querySelector sample_page (Class (js ''sidebar'')) = Some 9"
  by (simp add: querySelector_def querySelectorAll_def select_in_def sample_elements_def
      blank_element_def js_def)

subsection \<open>Footprint\<close>

lemma find_node_in_preorder:
  "find_node i t = Some n \<Longrightarrow> root n = i \<and> i \<in> set (preorder t)"
  "find_in_forest i ts = Some n \<Longrightarrow> root n = i \<and> i \<in> set (preorder_forest ts)"
  by (induction i t and i ts rule: find_node_find_in_forest.induct)
     (auto split: if_splits option.splits)

lemma descendants_nonempty_in_document:
  "i \<in> set (preorder_forest doc)" if "x \<in> set (descendants doc i)"
proof (cases "find_in_forest i doc")
  case None
  then show ?thesis using that by (simp add: descendants_def)
next
  case (Some n)
  then show ?thesis by (simp add: find_node_in_preorder(2))
qed

lemma preorder_forest_append:
  "preorder_forest (f @ g) = preorder_forest f @ preorder_forest g"
  by (induction f) simp_all

lemma next_element_sibling_in_document:
  "next_element_sibling doc i = Some l \<Longrightarrow> i \<in> set (preorder_forest doc)"
  by (induction doc i rule: next_element_sibling.induct)
     (auto split: if_splits option.splits list.splits)

lemma next_below_roots_in_forest:
  "next_below_roots f i = Some l \<Longrightarrow> i \<in> set (preorder_forest f)"
  by (induction f i rule: next_below_roots.induct)
     (auto split: if_splits option.splits dest: next_element_sibling_in_document)

lemma nextElementSibling_in_all_nodes:
  "nextElementSibling st i = Some l \<Longrightarrow> i \<in> set (all_nodes st)"
  by (auto simp: nextElementSibling_def all_nodes_def preorder_forest_append
      split: option.splits
      dest: next_element_sibling_in_document next_below_roots_in_forest)

lemma querySelectorAll_matches:
  "i \<in> set (querySelectorAll st sel) \<Longrightarrow> matches sel (elements st i)"
  by (simp add: querySelectorAll_def select_in_def)

lemma querySelector_matches:
  "querySelector st sel = Some i \<Longrightarrow> matches sel (elements st i)"
  using querySelectorAll_matches[of i st sel]
  by (auto simp: querySelector_def split: list.splits)

lemma required_field_conventional:
  assumes "matches Form (elements st form)"
    and "i \<in> set (querySelectorAll_in st form Required)"
  shows "conventional st i"
proof -
  from assms(2) have r: "matches Required (elements st i)"
    and d: "i \<in> set (descendants (document st @ detached st) form)"
    by (auto simp: querySelectorAll_in_def select_in_def)
  from d have "form \<in> set (all_nodes st)"
    unfolding all_nodes_def by (rule descendants_nonempty_in_document)
  with assms(1) have "form \<in> set (select_in (elements st) Form (all_nodes st))"
    by (simp add: select_in_def)
  with r d show ?thesis unfolding conventional_def by blast
qed

text \<open>The elements that the loops of the script access.\<close>

lemma check_fields_trace:
  "(\<And>b se'. trace (rest b) se' = []) \<Longrightarrow> set (trace (check_fields fs ok rest) se) \<subseteq> set fs"
  by (induction fs arbitrary: ok se) (auto split: option.splits if_splits)

lemma set_alert_timers_trace:
  "(\<And>st'. document st' = document st \<Longrightarrow> elements st' = elements st \<Longrightarrow>
       set (trace rest (st', e)) \<subseteq> A) \<Longrightarrow>
   set (trace (set_alert_timers as rest) (st, e)) \<subseteq> A"
  by (induction as arbitrary: st) (simp_all add: setTimeout_def)

lemma add_confirmations_trace:
  "(\<And>st'. document st' = document st \<Longrightarrow> elements st' = elements st \<Longrightarrow>
       set (trace rest (st', e)) \<subseteq> A) \<Longrightarrow>
   set (trace (add_confirmations bs rest) (st, e)) \<subseteq> set bs \<union> A"
proof (induction bs arbitrary: st)
  case Nil
  then show ?case by simp
next
  case (Cons b bs)
  have "set (trace (add_confirmations bs rest) (st', e)) \<subseteq> set bs \<union> A"
    if "document st' = document st" "elements st' = elements st" for st'
    by (rule Cons.IH, rule Cons.prems) (simp_all add: that)
  from this[of st] this[of "addEventListener (Element b) Click ConfirmDelete st"]
  show ?case
    by (auto simp: addEventListener_def split: href_value.splits)
qed

lemma add_validations_trace:
  "(\<And>st'. document st' = document st \<Longrightarrow> elements st' = elements st \<Longrightarrow>
       set (trace rest (st', e)) \<subseteq> A) \<Longrightarrow>
   set (trace (add_validations fs rest) (st, e)) \<subseteq> set fs \<union> A"
proof (induction fs arbitrary: st)
  case Nil
  then show ?case by simp
next
  case (Cons f fs)
  have "set (trace (add_validations fs rest) (st', e)) \<subseteq> set fs \<union> A"
    if "document st' = document st" "elements st' = elements st" for st'
    by (rule Cons.IH, rule Cons.prems) (simp_all add: that)
  from this[of "addEventListener (Element f) Submit (ValidateForm f) st"]
  show ?case
    by (auto simp: addEventListener_def)
qed

lemma add_change_listeners_trace:
  "set (trace (add_change_listeners is (Return ())) (st, e)) \<subseteq> set is"
  by (induction "is" arbitrary: st) auto

lemma querySelectorAll_cong:
  "document st' = document st \<Longrightarrow> elements st' = elements st \<Longrightarrow>
     querySelectorAll st' sel = querySelectorAll st sel"
  by (simp add: querySelectorAll_def)

lemma dom_content_loaded_trace:
  "set (trace dom_content_loaded (st, e)) \<subseteq>
     set (querySelectorAll st (Class (js ''btn-danger''))) \<union>
     (set (querySelectorAll st Form) \<union> set (querySelectorAll st InputTypeFile))"
  unfolding dom_content_loaded_def trace_simps fst_conv
proof (rule set_alert_timers_trace)
  fix s1 :: state
  assume s1: "document s1 = document st" "elements s1 = elements st"
  show "set (trace (Document_querySelectorAll (Class (js ''btn-danger'')) (\<lambda>deleteButtons.
            add_confirmations deleteButtons
              (Document_querySelectorAll Form (\<lambda>forms.
                 add_validations forms
                   (Document_querySelectorAll InputTypeFile (\<lambda>fileInputs.
                      add_change_listeners fileInputs (Return ()))))))) (s1, e)) \<subseteq>
     set (querySelectorAll st (Class (js ''btn-danger''))) \<union>
     (set (querySelectorAll st Form) \<union> set (querySelectorAll st InputTypeFile))"
    unfolding trace_simps fst_conv querySelectorAll_cong[OF s1]
  proof (rule add_confirmations_trace)
    fix s2 :: state
    assume "document s2 = document s1" "elements s2 = elements s1"
    then have s2: "document s2 = document st" "elements s2 = elements st"
      using s1 by simp_all
    show "set (trace (Document_querySelectorAll Form (\<lambda>forms.
                 add_validations forms
                   (Document_querySelectorAll InputTypeFile (\<lambda>fileInputs.
                      add_change_listeners fileInputs (Return ()))))) (s2, e)) \<subseteq>
          set (querySelectorAll st Form) \<union> set (querySelectorAll st InputTypeFile)"
      unfolding trace_simps fst_conv querySelectorAll_cong[OF s2]
    proof (rule add_validations_trace)
      fix s3 :: state
      assume "document s3 = document s2" "elements s3 = elements s2"
      then have s3: "document s3 = document st" "elements s3 = elements st"
        using s2 by simp_all
      show "set (trace (Document_querySelectorAll InputTypeFile (\<lambda>fileInputs.
                      add_change_listeners fileInputs (Return ()))) (s3, e)) \<subseteq>
            set (querySelectorAll st InputTypeFile)"
        unfolding trace_simps fst_conv querySelectorAll_cong[OF s3]
        by (rule add_change_listeners_trace)
    qed
  qed
qed

lemma fields_checked_frame:
  "i \<notin> set fs \<Longrightarrow> elements (fst (fields_checked fs st ok)) i = elements st i"
  by (induction fs st ok rule: fields_checked.induct)
     (auto simp: update_element_def split: option.splits)

lemma validated_frame:
  "i \<notin> set (querySelectorAll_in st form Required) \<Longrightarrow>
     elements (fst (validated form (st, e))) i = elements st i"
  using fields_checked_frame[of i "querySelectorAll_in st form Required" st True]
  by (auto simp: validated_def show_dialog_def split: prod.splits sum.splits)

lemma handler_confined:
  assumes "handler_ok st h"
  shows "(\<forall>i\<in>set (trace (handler_body h) (st, e)). conventional st i \<or> follows_file_input st i) \<and>
         (\<forall>i. \<not> conventional st i \<longrightarrow>
              elements (fst (run_handler h (st, e))) i = elements st i) \<and>
         document (fst (run_handler h (st, e))) = document st"
proof (cases h)
  case Initialize
  have "\<forall>i\<in>set (trace dom_content_loaded (st, e)). conventional st i"
    using dom_content_loaded_trace[of st e]
    by (auto simp: conventional_def dest!: querySelectorAll_matches)
  then show ?thesis
    by (simp add: Initialize run_handler_Initialize)
next
  case ConfirmDelete
  then show ?thesis
    by (simp add: run_handler_ConfirmDelete confirm_delete_def confirm_def show_dialog_def)
next
  case (ValidateForm form)
  with assms have f: "matches Form (elements st form)" by simp
  have "set (trace (check_fields (querySelectorAll_in st form Required) True
               (\<lambda>isValid. if \<not> isValid
                  then PreventDefault (Alert (js ''Please fill in all required fields.'') (Return ()))
                  else Return ())) (st, e)) \<subseteq> set (querySelectorAll_in st form Required)"
    by (rule check_fields_trace) simp
  then have "set (trace (validate_form form) (st, e)) \<subseteq>
          insert form (set (querySelectorAll_in st form Required))"
    by (auto simp: validate_form_def)
  moreover have "conventional st form" using f by (simp add: conventional_def)
  ultimately have a: "\<forall>i\<in>set (trace (validate_form form) (st, e)). conventional st i"
    using required_field_conventional[OF f] by blast
  have b: "elements (fst (validated form (st, e))) i = elements st i"
    if "\<not> conventional st i" for i
    using that validated_frame[of i st form e] required_field_conventional[OF f] by blast
  show ?thesis
    using a b validated_queues[of form "(st, e)"]
    by (simp add: ValidateForm run_handler_ValidateForm)
next
  case (FileInputChange input)
  with assms have f: "matches InputTypeFile (elements st input)" by simp
  then have c: "conventional st input" by (simp add: conventional_def)
  have "follows_file_input st l" if "nextElementSibling st input = Some l" for l
  proof -
    from that have "input \<in> set (all_nodes st)"
      by (rule nextElementSibling_in_all_nodes)
    with f have "input \<in> set (select_in (elements st) InputTypeFile (all_nodes st))"
      by (simp add: select_in_def)
    with that show ?thesis unfolding follows_file_input_def by blast
  qed
  with c show ?thesis
    by (auto simp: FileInputChange run_handler_FileInputChange file_input_change_def Let_def
        split: option.splits)
qed

lemma set_enqueue: "set (enqueue x q) = insert x (set q)"
  by (induction q) auto

lemma set_fold_enqueue:
  "set (fold (\<lambda>a. enqueue (d, f a)) as q) = set q \<union> (\<lambda>a. (d, f a)) ` set as"
  by (induction as arbitrary: q) (auto simp: set_enqueue)

lemma installed_ok:
  "l \<in> set (installed st) \<Longrightarrow> handler_ok st (snd (snd l))"
  by (auto simp: installed_def split: if_splits dest: querySelectorAll_matches)

lemma handler_ok_cong: "elements st' = elements st \<Longrightarrow> handler_ok st' h = handler_ok st h"
  by (cases h) simp_all

lemma script_state_page_ready:
  assumes "listeners pre = []" and "timers pre = []"
  shows "script_state (page_ready kind pre)"
proof -
  have "handler_ok (page_ready kind pre) (snd (snd l))"
    if "l \<in> set (listeners (page_ready kind pre))" for l
    using that installed_ok[of l pre]
    by (auto simp: listeners_page_ready[OF assms(1)]
        handler_ok_cong[OF page_ready_fields(3)[OF assms(1)]])
  moreover have "matches (Class (js ''alert'')) (elements (page_ready kind pre) (callback_target (snd t)))"
    if "t \<in> set (timers (page_ready kind pre))" for t
    using that
    by (auto simp: timers_page_ready[OF assms] page_ready_fields[OF assms(1)]
        dest: querySelectorAll_matches)
  ultimately show ?thesis unfolding script_state_def by blast
qed

lemma same_shape_refl [simp]: "same_shape el el"
  by (simp add: same_shape_def)

lemma same_shape_mark_field [simp]: "same_shape el (mark_field el)"
  by (simp add: same_shape_def mark_field_def split: option.split)

lemma same_shape_matches:
  "same_shape el el' \<Longrightarrow> sel \<noteq> Class (js ''mobile-open'') \<Longrightarrow> matches sel el' = matches sel el"
  by (cases sel) (auto simp: same_shape_def)

lemma validated_shape:
  "same_shape (elements st i) (elements (fst (validated form (st, e))) i)"
  using validated_marks[of form "(st, e)" i] by auto

lemma script_state_shape:
  assumes "script_state st"
    and "\<forall>i. same_shape (elements st i) (elements st' i)"
    and "\<forall>l\<in>set (listeners st'). l \<in> set (listeners st) \<or> handler_ok st (snd (snd l))"
    and "\<forall>t\<in>set (timers st'). t \<in> set (timers st) \<or>
           matches (Class (js ''alert'')) (elements st (callback_target (snd t)))"
  shows "script_state st'"
proof -
  have m: "matches sel (elements st' i) = matches sel (elements st i)"
    if "sel \<noteq> Class (js ''mobile-open'')" for sel i
    using assms(2) that by (simp add: same_shape_matches)
  have h: "handler_ok st' h = handler_ok st h" for h
    by (cases h) (simp_all add: m del: matches.simps)
  have "js ''alert'' \<noteq> js ''mobile-open''" by (simp add: js_def)
  then have a: "matches (Class (js ''alert'')) (elements st' i) =
                matches (Class (js ''alert'')) (elements st i)" for i
    by (intro m) simp
  show ?thesis
    using assms(1,3,4) unfolding script_state_def h a by blast
qed

lemma script_state_perform:
  assumes "script_state st" and "enabled st act"
  shows "script_state (perform act st)"
proof (cases act)
  case (Listener h e)
  show ?thesis
  proof (cases h)
    case Initialize
    have "script_state (fst (run_handler Initialize (st, e)))"
      by (rule script_state_shape[OF assms(1)])
         (auto simp: run_handler_Initialize set_fold_enqueue
            dest: querySelectorAll_matches installed_ok)
    then show ?thesis by (simp add: Listener Initialize)
  next
    case ConfirmDelete
    have "script_state (fst (run_handler ConfirmDelete (st, e)))"
      by (rule script_state_shape[OF assms(1)])
         (simp_all add: run_handler_ConfirmDelete confirm_def show_dialog_def)
    then show ?thesis by (simp add: Listener ConfirmDelete)
  next
    case (ValidateForm form)
    have "script_state (fst (validated form (st, e)))"
      by (rule script_state_shape[OF assms(1)])
         (use validated_queues[of form "(st, e)"] in \<open>simp_all add: validated_shape\<close>)
    then show ?thesis by (simp add: Listener ValidateForm run_handler_ValidateForm)
  next
    case (FileInputChange input)
    then show ?thesis using assms(1) by (simp add: Listener run_handler_FileInputChange)
  qed
next
  case (TimerCallback cb)
  with assms have a: "matches (Class (js ''alert'')) (elements st (callback_target cb))"
    by (auto simp: script_state_def)
  show ?thesis
  proof (cases cb)
    case (FadeOut alert)
    have "script_state (run_callback (FadeOut alert) st)"
      by (rule script_state_shape[OF assms(1)])
         (use a FadeOut in \<open>auto simp: run_callback_FadeOut setTimeout_def update_element_def
            same_shape_def set_enqueue\<close>)
    then show ?thesis by (simp add: TimerCallback FadeOut)
  next
    case (RemoveAlert alert)
    have "script_state (remove_element alert st)"
      by (rule script_state_shape[OF assms(1)]) (simp_all add: remove_element_fields)
    then show ?thesis by (simp add: TimerCallback RemoveAlert run_callback_RemoveAlert)
  qed
next
  case (Call f)
  then have f: "f = ToggleMobileMenu" by (cases f) simp
  have "script_state (toggleMobileMenu st)"
    by (rule script_state_shape[OF assms(1)])
       (auto simp: toggleMobileMenu_def update_element_def same_shape_def toggle_other
          split: option.splits)
  then show ?thesis by (simp add: Call f)
qed

lemma toggleMobileMenu_program_run:
  "fst (run_program toggleMobileMenu_program (st, e)) = toggleMobileMenu st"
  "set (trace toggleMobileMenu_program (st, e)) =
     (case querySelector st (Class (js ''sidebar'')) of None \<Rightarrow> {} | Some s \<Rightarrow> {s})"
  by (simp_all add: run_program_def toggleMobileMenu_program_def toggleMobileMenu_def
      split: option.split)

lemma sample_file_inputs: "querySelectorAll sample_page InputTypeFile = [7]"
  by (simp add: sample_data)

lemma sample_nodes:
  "all_nodes (page_ready Classic sample_page) = [0, 1, 2, 3, 4, 5, 6, 7, 8, 9]"
  by (simp add: all_nodes_def page_ready_fields)

lemma sample_sibling: "nextElementSibling (page_ready Classic sample_page) 7 = Some 8"
  by (simp add: nextElementSibling_def page_ready_fields)

lemma sample_small_unconventional: "\<not> conventional (page_ready Classic sample_page) 8"
  by (simp add: conventional_def page_ready_fields sample_elements_def blank_element_def js_def)

lemma late_form_facts:
  "14 \<in> set (querySelectorAll late_form_page Form)"
  "querySelectorAll_in late_form_page 14 Required = [15]"
  "value_of (elements late_form_page 15) = Some []"
  "borderColor (style (elements late_form_page 15)) = []"
  "event_path late_form_page (Element 14) = [Element 14, Element 0, Document]"
  "listeners late_form_page =
     [(Document, DOMContentLoaded, Initialize), (Element 2, Click, ConfirmDelete),
      (Element 4, Submit, ValidateForm 4), (Element 7, Change, FileInputChange 7)]"
  by (simp_all add: late_form_page_def page_ready_fields listeners_page_ready sample_installed
      querySelectorAll_in_def descendants_def event_path_def sample_data)

lemma late_form_submit:
  "dispatch (Element 14) Submit (late_form_page, e) = (late_form_page, e)"
  by (rule dispatch_no_listeners) (simp add: late_form_facts listeners_on_def)

section \<open>Properties of the script\<close>

text \<open>
  In what follows \<open>pre\<close> is the page when the script runs, \<open>page_ready kind pre\<close> the
  page once \<open>DOMContentLoaded\<close> has been dispatched, and \<open>st\<close> any later state with
  the same listeners. The hypothesis \<open>listeners pre = []\<close> says that the script is the
  only source of listeners.
\<close>

subsection \<open>Form validation\<close>

text \<open>
  C1, as the claim states it, fails, in five ways.
  On the sample page the required fields of the form hold a single space and \<open>bob\<close>:
  neither value is empty, yet the submit event is default-prevented and the dialog
  shown, because the listener tests the trimmed value.
  With a required element that has no \<open>value\<close> (a \<open>div\<close> carrying \<open>required\<close>)
  before a required input whose value is empty, \<open>field.value.trim()\<close> throws at the
  \<open>div\<close>: the event is not prevented and no dialog is shown.
  With an SVG link of class \<open>btn-danger\<close> on the page, the \<open>DOMContentLoaded\<close>
  listener throws in the loop over the danger buttons, before it reaches the forms: the
  form has no submit listener, and submitting it with an empty required field changes
  nothing.
  With a form inside a form, the submit event of the inner form, whose one required
  field is filled, bubbles to the outer form, whose listener finds an empty required
  field of the outer form: the event is prevented and the dialog shown.
  A form inserted after \<open>DOMContentLoaded\<close> has no submit listener: submitting it with
  an empty required field changes nothing.
\<close>

theorem submit_blocked_counterexample:
  "(querySelectorAll_in (page_ready Classic sample_page) 4 Required = [5, 6] \<and>
    value_of (elements (page_ready Classic sample_page) 5) = Some (js '' '') \<and> js '' '' \<noteq> [] \<and>
    value_of (elements (page_ready Classic sample_page) 6) = Some (js ''bob'') \<and> js ''bob'' \<noteq> [] \<and>
    snd (dispatch (Element 4) Submit
           (page_ready Classic sample_page, \<lparr>default_prevented = False\<rparr>)) =
      \<lparr>default_prevented = True\<rparr> \<and>
    dialogs (fst (dispatch (Element 4) Submit
           (page_ready Classic sample_page, \<lparr>default_prevented = False\<rparr>))) =
      [AlertDialog (js ''Please fill in all required fields.'')]) \<and>
   (querySelectorAll_in (page_ready Classic required_div_page) 4 Required = [5, 11, 6] \<and>
    value_of (elements (page_ready Classic required_div_page) 6) = Some [] \<and>
    snd (dispatch (Element 4) Submit
           (page_ready Classic required_div_page, \<lparr>default_prevented = False\<rparr>)) =
      \<lparr>default_prevented = False\<rparr> \<and>
    dialogs (fst (dispatch (Element 4) Submit
           (page_ready Classic required_div_page, \<lparr>default_prevented = False\<rparr>))) = []) \<and>
   (querySelectorAll_in (page_ready Classic svg_page) 4 Required = [5, 6] \<and>
    value_of (elements (page_ready Classic svg_page) 6) = Some [] \<and>
    dispatch (Element 4) Submit (page_ready Classic svg_page, \<lparr>default_prevented = False\<rparr>) =
      (page_ready Classic svg_page, \<lparr>default_prevented = False\<rparr>)) \<and>
   (querySelectorAll_in (page_ready Classic nested_forms_page) 12 Required = [13] \<and>
    value_of (elements (page_ready Classic nested_forms_page) 13) = Some (js ''x'') \<and>
    js ''x'' \<noteq> [] \<and>
    snd (dispatch (Element 12) Submit
           (page_ready Classic nested_forms_page, \<lparr>default_prevented = False\<rparr>)) =
      \<lparr>default_prevented = True\<rparr> \<and>
    dialogs (fst (dispatch (Element 12) Submit
           (page_ready Classic nested_forms_page, \<lparr>default_prevented = False\<rparr>))) =
      [AlertDialog (js ''Please fill in all required fields.'')]) \<and>
   (14 \<in> set (querySelectorAll late_form_page Form) \<and>
    querySelectorAll_in late_form_page 14 Required = [15] \<and>
    value_of (elements late_form_page 15) = Some [] \<and>
    dispatch (Element 14) Submit (late_form_page, \<lparr>default_prevented = False\<rparr>) =
      (late_form_page, \<lparr>default_prevented = False\<rparr>))"
proof (intro conjI)
  let ?e = "\<lparr>default_prevented = False\<rparr>"
  have ne: "js '' '' \<noteq> []" "js ''bob'' \<noteq> []" "js ''x'' \<noteq> []" by (simp_all add: js_def)
  let ?P = "page_ready Classic sample_page"
  have dP: "dispatch (Element 4) Submit (?P, ?e) = validated 4 (?P, ?e)"
    by (rule dispatch_submit[OF _ sample_init _ sample_form refl sample_form_alone]) simp_all
  have sP: "\<forall>f\<in>set (querySelectorAll_in (fst (?P, ?e)) 4 Required).
              value_of (elements (fst (?P, ?e)) f) \<noteq> None"
    using sample_strings by simp
  have bP: "\<exists>f\<in>set (querySelectorAll_in ?P 4 Required). is_blank (elements ?P f)"
    by (simp add: sample_required is_blank_def sample_values sample_trims)
  show "querySelectorAll_in ?P 4 Required = [5, 6]" by (rule sample_required)
  show "value_of (elements ?P 5) = Some (js '' '')" by (rule sample_values)
  show "value_of (elements ?P 6) = Some (js ''bob'')" by (rule sample_values)
  show "js '' '' \<noteq> []" "js ''bob'' \<noteq> []" "js ''x'' \<noteq> []" by (rule ne)+
  show "snd (dispatch (Element 4) Submit (?P, ?e)) = \<lparr>default_prevented = True\<rparr>"
    using bP by (simp add: dP validated_summary(1)[OF sP] preventDefault_def)
  show "dialogs (fst (dispatch (Element 4) Submit (?P, ?e))) =
          [AlertDialog (js ''Please fill in all required fields.'')]"
    using bP by (simp add: dP validated_summary(2)[OF sP] page_ready_fields)
  let ?R = "page_ready Classic required_div_page"
  note r = required_div_facts
  have lR: "listeners ?R = (Document, DOMContentLoaded, Initialize) # installed required_div_page"
    by (rule ready_listeners) (rule r)
  have aR: "\<forall>t\<in>set (tl (event_path ?R (Element 4))). listeners_on ?R t Submit = []"
    by (simp add: page_ready_queries[OF r(1)] r listeners_on_def lR)
  have dR: "dispatch (Element 4) Submit (?R, ?e) = validated 4 (?R, ?e)"
    by (rule dispatch_submit[OF r(1-4) refl aR])
  have tR: "\<exists>f\<in>set (querySelectorAll_in ?R 4 Required). value_of (elements ?R f) = None"
    by (simp add: page_ready_queries[OF r(1)] page_ready_fields[OF r(1)] r)
  show "querySelectorAll_in ?R 4 Required = [5, 11, 6]"
    by (simp add: page_ready_queries[OF r(1)] r)
  show "value_of (elements ?R 6) = Some []"
    by (simp add: page_ready_fields[OF r(1)] r)
  show "snd (dispatch (Element 4) Submit (?R, ?e)) = \<lparr>default_prevented = False\<rparr>"
    using validated_throws[OF tR, of ?e] by (simp add: dR)
  show "dialogs (fst (dispatch (Element 4) Submit (?R, ?e))) = []"
    using validated_throws[OF tR, of ?e] by (simp add: dR page_ready_fields[OF r(1)] r)
  let ?S = "page_ready Classic svg_page"
  note s = svg_facts
  have lS: "listeners ?S = [(Document, DOMContentLoaded, Initialize)]"
    by (simp add: ready_listeners[OF s(1)] svg_installed)
  show "querySelectorAll_in ?S 4 Required = [5, 6]"
    by (simp add: page_ready_queries[OF s(1)] s)
  show "value_of (elements ?S 6) = Some []"
    by (simp add: page_ready_fields[OF s(1)] s)
  show "dispatch (Element 4) Submit (?S, ?e) = (?S, ?e)"
    by (rule dispatch_no_listeners)
       (simp add: page_ready_queries[OF s(1)] s listeners_on_def lS)
  let ?N = "page_ready Classic nested_forms_page"
  note n = nested_forms_facts
  have lN: "listeners ?N = (Document, DOMContentLoaded, Initialize) # installed nested_forms_page"
    by (rule ready_listeners) (rule n)
  have qN: "querySelectorAll_in ?N 12 Required = [13]" "querySelectorAll_in ?N 4 Required = [5, 6, 13]"
    by (simp_all add: page_ready_queries[OF n(1)] n)
  have vN: "value_of (elements ?N 13) = Some (js ''x'')" "value_of (elements ?N 5) = Some []"
    "value_of (elements ?N 6) = Some (js ''bob'')"
    by (simp_all add: page_ready_fields[OF n(1)] n)
  have dN: "dispatch (Element 12) Submit (?N, ?e) = validated 4 (validated 12 (?N, ?e))"
    by (simp add: dispatch_eq[OF lN] page_ready_queries[OF n(1)] n listeners_on_def lN
        run_handler_ValidateForm)
  let ?se = "validated 12 (?N, ?e)"
  have s12: "\<forall>f\<in>set (querySelectorAll_in (fst (?N, ?e)) 12 Required).
               value_of (elements (fst (?N, ?e)) f) \<noteq> None"
    by (simp add: qN vN)
  have nb: "\<not> (\<exists>f\<in>set (querySelectorAll_in (fst (?N, ?e)) 12 Required).
                is_blank (elements (fst (?N, ?e)) f))"
    by (simp add: qN vN is_blank_def sample_trims)
  have e1: "snd ?se = ?e" and d1: "dialogs (fst ?se) = []"
    using validated_summary[OF s12] nb by (simp_all add: page_ready_fields[OF n(1)] n)
  have s4: "\<forall>f\<in>set (querySelectorAll_in (fst ?se) 4 Required).
               value_of (elements (fst ?se) f) \<noteq> None"
    by (simp add: validated_keeps qN vN)
  have b4: "\<exists>f\<in>set (querySelectorAll_in (fst ?se) 4 Required). is_blank (elements (fst ?se) f)"
    by (simp add: validated_keeps qN vN is_blank_def sample_trims)
  show "querySelectorAll_in ?N 12 Required = [13]" by (rule qN)
  show "value_of (elements ?N 13) = Some (js ''x'')" by (rule vN)
  show "snd (dispatch (Element 12) Submit (?N, ?e)) = \<lparr>default_prevented = True\<rparr>"
    using b4 by (simp add: dN validated_summary(1)[OF s4] e1 preventDefault_def)
  show "dialogs (fst (dispatch (Element 12) Submit (?N, ?e))) =
          [AlertDialog (js ''Please fill in all required fields.'')]"
    using b4 by (simp add: dN validated_summary(2)[OF s4] d1)
  note f = late_form_facts
  show "14 \<in> set (querySelectorAll late_form_page Form)" by (rule f)
  show "querySelectorAll_in late_form_page 14 Required = [15]" by (rule f)
  show "value_of (elements late_form_page 15) = Some []" by (rule f)
  show "dispatch (Element 14) Submit (late_form_page, ?e) = (late_form_page, ?e)"
    by (rule late_form_submit)
qed

text \<open>
  C1, amended. Let the script be the only source of listeners, let the
  \<open>DOMContentLoaded\<close> listener run to its end (no element of class \<open>btn-danger\<close> has
  an \<open>href\<close> that is an object), and let every element occur once in the document
  tree. For every form that is in the document when \<open>DOMContentLoaded\<close> fires, that
  has no ancestor carrying a submit listener, and whose required elements all have a
  string value when the event fires: a submit event on the form is default-prevented and
  the alert dialog \<open>Please fill in all required fields.\<close> is shown, once, if at least
  one required element inside the form has a value that is empty after trimming white
  space; otherwise the event is left as it was and no dialog is shown.
\<close>

theorem submit_blocked_iff_blank_field:
  assumes "listeners pre = []"
    and "init_completes pre"
    and "distinct (preorder_forest (document pre))"
    and "form \<in> set (querySelectorAll pre Form)"
    and "listeners st = listeners (page_ready kind pre)"
    and "\<forall>t\<in>set (tl (event_path st (Element form))). listeners_on st t Submit = []"
    and "\<forall>f\<in>set (querySelectorAll_in st form Required). value_of (elements st f) \<noteq> None"
    and "dispatch (Element form) Submit (st, e) = (st', e')"
  shows "(if \<exists>f\<in>set (querySelectorAll_in st form Required).
               \<exists>v. value_of (elements st f) = Some v \<and> trim v = []
          then e' = preventDefault e \<and>
               dialogs st' = dialogs st @ [AlertDialog (js ''Please fill in all required fields.'')]
          else e' = e \<and> dialogs st' = dialogs st)"
proof -
  have b: "is_blank el \<longleftrightarrow> (\<exists>v. value_of el = Some v \<and> trim v = [])" for el
    by (simp add: is_blank_def split: option.split)
  from assms(8) show ?thesis
    unfolding dispatch_submit[OF assms(1-6)] validated_strings[OF assms(7)] Let_def b
    by (auto simp: show_dialog_def split: if_splits)
qed

theorem submit_blocked_iff_blank_field_witness:
  "(\<exists>f\<in>set (querySelectorAll_in (page_ready Classic sample_page) 4 Required).
      \<exists>v. value_of (elements (page_ready Classic sample_page) f) = Some v \<and> trim v = []) \<and>
   snd (dispatch (Element 4) Submit
          (page_ready Classic sample_page, \<lparr>default_prevented = False\<rparr>)) =
     preventDefault \<lparr>default_prevented = False\<rparr> \<and>
   dialogs (fst (dispatch (Element 4) Submit
          (page_ready Classic sample_page, \<lparr>default_prevented = False\<rparr>))) =
     dialogs (page_ready Classic sample_page) @
       [AlertDialog (js ''Please fill in all required fields.'')]"
proof -
  have h1: "listeners sample_page = []" by simp
  have h3: "distinct (preorder_forest (document sample_page))" by simp
  have b: "\<exists>f\<in>set (querySelectorAll_in (page_ready Classic sample_page) 4 Required).
      \<exists>v. value_of (elements (page_ready Classic sample_page) f) = Some v \<and> trim v = []"
    by (simp add: sample_required sample_values sample_trims)
  from submit_blocked_iff_blank_field[OF h1 sample_init h3 sample_form refl sample_form_alone
      sample_strings surjective_pairing] b
  show ?thesis by simp
qed

text \<open>
  C4, as the claim states it, fails, in three ways.
  With a required element that has no \<open>value\<close> (a \<open>div\<close> carrying \<open>required\<close>)
  before it, a required input whose value is empty keeps the border colour it had: the
  listener throws at the \<open>div\<close> and never reaches the input.
  With an SVG link of class \<open>btn-danger\<close> on the page, the form has no submit listener
  and a submit event styles nothing.
  A form inserted after \<open>DOMContentLoaded\<close> has no submit listener either.
\<close>

theorem submit_styles_counterexample:
  "(6 \<in> set (querySelectorAll_in (page_ready Classic required_div_page) 4 Required) \<and>
    value_of (elements (page_ready Classic required_div_page) 6) = Some [] \<and>
    trim [] = [] \<and>
    borderColor (style (elements (page_ready Classic required_div_page) 6)) = [] \<and>
    borderColor (style (elements (fst (dispatch (Element 4) Submit
       (page_ready Classic required_div_page, \<lparr>default_prevented = False\<rparr>))) 6)) = [] \<and>
    js ''#ef4444'' \<noteq> []) \<and>
   (6 \<in> set (querySelectorAll_in (page_ready Classic svg_page) 4 Required) \<and>
    value_of (elements (page_ready Classic svg_page) 6) = Some [] \<and>
    borderColor (style (elements (fst (dispatch (Element 4) Submit
       (page_ready Classic svg_page, \<lparr>default_prevented = False\<rparr>))) 6)) = []) \<and>
   (14 \<in> set (querySelectorAll late_form_page Form) \<and>
    15 \<in> set (querySelectorAll_in late_form_page 14 Required) \<and>
    value_of (elements late_form_page 15) = Some [] \<and>
    borderColor (style (elements (fst (dispatch (Element 14) Submit
       (late_form_page, \<lparr>default_prevented = False\<rparr>))) 15)) = [])"
proof -
  let ?e = "\<lparr>default_prevented = False\<rparr>"
  let ?R = "page_ready Classic required_div_page"
  let ?S = "page_ready Classic svg_page"
  note r = required_div_facts
  note s = svg_facts
  have qR: "querySelectorAll_in ?R 4 Required = [5, 11, 6]"
    by (simp add: page_ready_queries[OF r(1)] r)
  have vR: "value_of (elements ?R 5) = Some (js '' '')" "value_of (elements ?R 11) = None"
    "value_of (elements ?R 6) = Some []"
    by (simp_all add: page_ready_fields[OF r(1)] r)
  have bR: "borderColor (style (elements ?R 6)) = []"
    by (simp add: page_ready_fields[OF r(1)]) (simp add: required_div_page_def sample_data)
  have "elements (fst (validated 4 (?R, ?e))) 6 = elements ?R 6"
    by (simp add: validated_def qR vR sample_trims update_element_def)
  then have a: "borderColor (style (elements (fst (dispatch (Element 4) Submit (?R, ?e))) 6)) = []"
    by (simp add: required_div_submit bR)
  have qS: "querySelectorAll_in ?S 4 Required = [5, 6]"
    by (simp add: page_ready_queries[OF s(1)] s)
  have vS: "value_of (elements ?S 6) = Some []"
    by (simp add: page_ready_fields[OF s(1)] s)
  have bS: "borderColor (style (elements ?S 6)) = []"
    by (simp add: page_ready_fields[OF s(1)]) (simp add: svg_page_def sample_data)
  have t: "trim [] = []" "js ''#ef4444'' \<noteq> []" by (simp_all add: trim_def js_def)
  show ?thesis
    using a t late_form_facts
    by (simp add: qR vR bR qS vS bS svg_submit late_form_submit)
qed

text \<open>
  C4, amended. Let the script be the only source of listeners and let the
  \<open>DOMContentLoaded\<close> listener run to its end (no element of class \<open>btn-danger\<close> has
  an \<open>href\<close> that is an object). For every form that is in the document when
  \<open>DOMContentLoaded\<close> fires and whose required elements all have a string value when
  the event fires: after a submit event on the form, each required element inside the
  form has the border colour \<open>#ef4444\<close> if its value trimmed of white space is empty,
  which is the case exactly when the value consists of white space only, and
  \<open>#e5e7eb\<close> otherwise, and is otherwise as it was before the event. This holds
  whether or not the event is prevented.
\<close>

theorem submit_styles_required_fields:
  assumes "listeners pre = []"
    and "init_completes pre"
    and "form \<in> set (querySelectorAll pre Form)"
    and "listeners st = listeners (page_ready kind pre)"
    and "\<forall>f\<in>set (querySelectorAll_in st form Required). value_of (elements st f) \<noteq> None"
    and "field \<in> set (querySelectorAll_in st form Required)"
    and "value_of (elements st field) = Some v"
  shows "elements (fst (dispatch (Element form) Submit (st, e))) field =
           (elements st field)\<lparr>style := (style (elements st field))\<lparr>borderColor :=
              (if trim v = [] then js ''#ef4444'' else js ''#e5e7eb'')\<rparr>\<rparr> \<and>
         (trim v = [] \<longleftrightarrow> (\<forall>c\<in>set v. is_white_space c))"
proof -
  have l: "listeners st = (Document, DOMContentLoaded, Initialize) # installed pre"
    using assms by (simp add: listeners_page_ready)
  let ?hs = "concat (map (\<lambda>t. listeners_on st t Submit) (event_path st (Element form)))"
  have d: "dispatch (Element form) Submit (st, e) = fold run_handler ?hs (st, e)"
    by (rule dispatch_eq[OF l]) simp
  have all: "\<forall>h\<in>set ?hs. \<exists>form. h = ValidateForm form"
    using submit_listeners_validate[OF l] by auto
  obtain own where own: "listeners_on st (Element form) Submit = ValidateForm form # own"
    using assms(2) filter_eq_head[OF assms(3)] by (auto simp: listeners_on_submit[OF l])
  have "?hs = ValidateForm form #
               (own @ concat (map (\<lambda>t. listeners_on st t Submit)
                               (tl (event_path st (Element form)))))"
    by (subst event_path_split) (simp add: own)
  then obtain rest where hs: "?hs = ValidateForm form # rest" by blast
  have first: "elements (fst (run_handler (ValidateForm form) (st, e))) field =
                 mark_field (elements st field)"
    using assms(6)
    by (simp add: run_handler_ValidateForm validated_strings[OF assms(5)] Let_def show_dialog_def)
  have "elements (fst (fold run_handler rest (run_handler (ValidateForm form) (st, e)))) field =
          mark_field (elements st field)"
    by (rule fold_validated_marked) (use all hs first in auto)
  then show ?thesis
    using assms(7) by (simp add: d hs mark_field_def trim_empty_iff)
qed

theorem submit_styles_required_fields_witness:
  "5 \<in> set (querySelectorAll_in (page_ready Classic sample_page) 4 Required) \<and>
   6 \<in> set (querySelectorAll_in (page_ready Classic sample_page) 4 Required) \<and>
   borderColor (style (elements (fst (dispatch (Element 4) Submit
       (page_ready Classic sample_page, \<lparr>default_prevented = False\<rparr>))) 5)) = js ''#ef4444'' \<and>
   borderColor (style (elements (fst (dispatch (Element 4) Submit
       (page_ready Classic sample_page, \<lparr>default_prevented = False\<rparr>))) 6)) = js ''#e5e7eb''"
proof -
  have h1: "listeners sample_page = []" by simp
  have m5: "5 \<in> set (querySelectorAll_in (page_ready Classic sample_page) 4 Required)"
    and m6: "6 \<in> set (querySelectorAll_in (page_ready Classic sample_page) 4 Required)"
    by (simp_all add: sample_required)
  from submit_styles_required_fields[OF h1 sample_init sample_form refl sample_strings m5
      sample_values(1), where e = "\<lparr>default_prevented = False\<rparr>"]
    submit_styles_required_fields[OF h1 sample_init sample_form refl sample_strings m6
      sample_values(2), where e = "\<lparr>default_prevented = False\<rparr>"]
    m5 m6
  show ?thesis by (simp add: sample_trims)
qed

subsection \<open>Alert timers\<close>

text \<open>
  C2, as the claim states it, fails, in two ways.
  An alert inserted once \<open>DOMContentLoaded\<close> has fired gets no timer: on the sample
  page such an alert, inserted at time 0, is still in the document at time 5500, and no
  timer is left that could remove it.
  The delay counts from \<open>DOMContentLoaded\<close>, not from the insertion of the alert: the
  alert of the sample page is in the document at time 0; when the script runs at time
  1000, the alert is still in the document at time 5999.
\<close>

theorem late_alert_counterexample:
  "(10 \<notin> set (preorder_forest (document (page_ready Classic sample_page))) \<and>
    10 \<in> set (querySelectorAll late_alert_page (Class (js ''alert''))) \<and>
    now late_alert_page = 0 \<and>
    now (advance 5500 late_alert_page) = 5500 \<and>
    10 \<in> set (preorder_forest (document (advance 5500 late_alert_page))) \<and>
    timers (advance 5500 late_alert_page) = []) \<and>
   (now sample_page = 0 \<and>
    1 \<in> set (querySelectorAll sample_page (Class (js ''alert''))) \<and>
    now (advance 1000 sample_page) = 1000 \<and>
    now (advance 5999 (page_ready Classic (advance 1000 sample_page))) = 5999 \<and>
    1 \<in> set (preorder_forest
               (document (advance 5999 (page_ready Classic (advance 1000 sample_page))))))"
proof -
  have q: "timers late_alert_page = fade_queue 0 [1] []"
    by (simp add: late_alert_page_def timers_page_ready sample_alerts fade_queue_def)
  have n: "now late_alert_page = 0"
    by (simp add: late_alert_page_def page_ready_fields)
  have a: "timers (advance 5500 late_alert_page) = [] \<and>
         document (advance 5500 late_alert_page) =
           fold remove_from ([] @ [1]) (document late_alert_page) \<and>
         elements (advance 5500 late_alert_page) =
           (\<lambda>i. if i \<in> set [1] then faded (elements late_alert_page i)
                else elements late_alert_page i) \<and>
         now (advance 5500 late_alert_page) = max (now late_alert_page) 5500"
    by (rule advance_removed[OF q]) (simp_all add: n)
  have d: "document late_alert_page =
             [Elem 0 [Elem 10 [], Elem 1 [], Elem 2 [], Elem 3 [],
                      Elem 4 [Elem 5 [], Elem 6 [], Elem 7 [], Elem 8 []], Elem 9 []]]"
    by (simp add: late_alert_page_def)
  have m: "10 \<in> set (querySelectorAll late_alert_page (Class (js ''alert'')))"
    by (simp add: querySelectorAll_def select_in_def d)
       (simp add: late_alert_page_def blank_element_def)
  have o: "10 \<notin> set (preorder_forest (document (page_ready Classic sample_page)))"
    by (simp add: page_ready_fields)
  have w: "advance 1000 sample_page = sample_page\<lparr>now := 1000\<rparr>"
    by (simp add: advance.simps[of 1000 sample_page])
  let ?P = "page_ready Classic (sample_page\<lparr>now := 1000\<rparr>)"
  have al: "querySelectorAll (sample_page\<lparr>now := 1000\<rparr>) (Class (js ''alert'')) = [1]"
    by (simp add: sample_data)
  have q2: "timers ?P = fade_queue 1000 [1] []"
    by (simp add: timers_page_ready al fade_queue_def)
  have a2: "advance 5999 ?P = ?P\<lparr>now := max (now ?P) 5999\<rparr>"
    by (rule advance_before[OF q2]) simp
  have s: "1 \<in> set (preorder_forest (document (advance 5999 ?P)))"
    unfolding a2 by (simp add: page_ready_fields)
  have t: "now (advance 5999 ?P) = 5999"
    unfolding a2 by (simp add: page_ready_fields)
  show ?thesis
    using m n o a s t by (simp add: d w sample_alerts)
qed

text \<open>
  C2, amended. Let no listener be registered and no timer be pending when the script
  runs, and let timers run when they are due. For every alert element that is in the
  document when \<open>DOMContentLoaded\<close> fires: during the first 5 seconds after that event
  nothing happens but the passing of time; from 5 seconds to less than 5.5 seconds after
  it the document is as it was and the alert has the transition \<open>opacity 0.5s\<close> and
  the opacity \<open>0\<close>; from 5.5 seconds after it on, the alert is not in the document.
\<close>

theorem alerts_fade_then_leave:
  assumes "listeners pre = []" and "timers pre = []"
    and "alert \<in> set (querySelectorAll pre (Class (js ''alert'')))"
    and "timers st = timers (page_ready kind pre)" and "now st = now pre"
  shows "(t < now pre + 5000 \<longrightarrow> advance t st = st\<lparr>now := max (now st) t\<rparr>) \<and>
         (now pre + 5000 \<le> t \<and> t < now pre + 5500 \<longrightarrow>
            document (advance t st) = document st \<and>
            elements (advance t st) alert = faded (elements st alert)) \<and>
         (now pre + 5500 \<le> t \<longrightarrow>
            alert \<notin> set (preorder_forest (document (advance t st))) \<and>
            elements (advance t st) alert = faded (elements st alert))"
proof -
  note q = timers_as_fade_queue[OF assms(1,2,4)]
  have n: "now st \<le> now pre + 5000" using assms(5) by simp
  have "advance t st = st\<lparr>now := max (now st) t\<rparr>" if "t < now pre + 5000"
    using advance_before[OF q that] .
  moreover have "document (advance t st) = document st \<and>
            elements (advance t st) alert = faded (elements st alert)"
    if "now pre + 5000 \<le> t" "t < now pre + 5500"
    using assms(3) by (simp add: advance_fading[OF q n that])
  moreover have "alert \<notin> set (preorder_forest (document (advance t st))) \<and>
            elements (advance t st) alert = faded (elements st alert)"
    if "now pre + 5500 \<le> t"
    using assms(3) advance_removed[OF q n that] by (simp add: fold_remove_from_removes)
  ultimately show ?thesis by blast
qed

theorem alerts_fade_then_leave_witness:
  "1 \<in> set (querySelectorAll sample_page (Class (js ''alert''))) \<and>
   1 \<in> set (preorder_forest (document (advance 4999 (page_ready Classic sample_page)))) \<and>
   elements (advance 4999 (page_ready Classic sample_page)) 1 = elements sample_page 1 \<and>
   1 \<in> set (preorder_forest (document (advance 5000 (page_ready Classic sample_page)))) \<and>
   elements (advance 5000 (page_ready Classic sample_page)) 1 = faded (elements sample_page 1) \<and>
   1 \<notin> set (preorder_forest (document (advance 5500 (page_ready Classic sample_page))))"
proof -
  have h1: "listeners sample_page = []" and h2: "timers sample_page = []" by simp_all
  have h3: "1 \<in> set (querySelectorAll sample_page (Class (js ''alert'')))"
    by (simp add: sample_alerts)
  have h5: "now (page_ready Classic sample_page) = now sample_page"
    by (simp add: page_ready_fields)
  note w = alerts_fade_then_leave[OF h1 h2 h3 refl h5]
  from w[of 4999] w[of 5000] w[of 5500] h3
  show ?thesis by (simp add: page_ready_fields)
qed

subsection \<open>Delete buttons\<close>




text \<open>
  C7, as the claim states it, fails: a \<open>span\<close> of class \<open>btn-danger\<close> without
  \<open>href\<close>, inside a delete link, has no click listener of its own, but a click on it
  bubbles to the link: the confirmation dialog is shown and, the user declining, the
  default action is prevented.
\<close>

theorem other_danger_button_counterexample:
  "11 \<in> set (querySelectorAll nested_span_page (Class (js ''btn-danger''))) \<and>
   href (elements nested_span_page 11) = NoHref \<and>
   listeners_on (page_ready Classic nested_span_page) (Element 11) Click = [] \<and>
   dispatch (Element 11) Click (page_ready Classic nested_span_page, \<lparr>default_prevented = False\<rparr>) =
     ((page_ready Classic nested_span_page)
        \<lparr>dialogs := [ConfirmDialog (js ''Are you sure you want to delete this item?'')],
         answers := []\<rparr>,
      \<lparr>default_prevented = True\<rparr>)"
proof -
  let ?P = "page_ready Classic nested_span_page"
  have l0: "listeners nested_span_page = []" by (simp add: nested_span_page_def)
  have l: "listeners ?P = (Document, DOMContentLoaded, Initialize) # installed nested_span_page"
    by (simp add: listeners_page_ready l0)
  have a: "11 \<in> set (querySelectorAll nested_span_page (Class (js ''btn-danger'')))"
    by (simp add: nested_span_page_def sample_data)
  have h: "href (elements nested_span_page 11) = NoHref"
    by (simp add: nested_span_page_def sample_data)
  have p: "event_path ?P (Element 11) = [Element 11, Element 2, Element 0, Document]"
    by (simp add: event_path_def page_ready_fields[OF l0]) (simp add: nested_span_page_def)
  have own: "listeners_on ?P (Element 11) Click = []"
    by (simp add: listeners_on_def l nested_span_installed)
  have hs: "concat (map (\<lambda>t. listeners_on ?P t Click) (event_path ?P (Element 11))) =
              [ConfirmDelete]"
    by (simp add: p listeners_on_def l nested_span_installed)
  have an: "answers ?P = [False]" "dialogs ?P = []"
    by (simp_all add: page_ready_fields[OF l0]) (simp_all add: nested_span_page_def)
  have "dispatch (Element 11) Click (?P, \<lparr>default_prevented = False\<rparr>) =
          run_handler ConfirmDelete (?P, \<lparr>default_prevented = False\<rparr>)"
    by (simp add: dispatch_eq[OF l] hs)
  also have "\<dots> = (?P\<lparr>dialogs := [ConfirmDialog (js ''Are you sure you want to delete this item?'')],
                        answers := []\<rparr>, \<lparr>default_prevented = True\<rparr>)"
    by (simp add: run_handler_ConfirmDelete confirm_def show_dialog_def an preventDefault_def)
  finally show ?thesis using a h own by simp
qed

text \<open>
  C7, amended. Let the script be the only source of listeners. An element that has no
  \<open>href\<close>, or whose \<open>href\<close> is not a string containing \<open>delete\<close>, carries no
  click listener. When none of its ancestors carries a click listener either, a click on
  it leaves the state and the event as they were: no dialog is shown and the default
  action is not prevented.
\<close>

theorem other_danger_button_no_listener:
  assumes "listeners pre = []"
    and "\<forall>h. href (elements pre button) = HrefString h \<longrightarrow> \<not> js_includes h (js ''delete'')"
    and "listeners st = listeners (page_ready kind pre)"
  shows "listeners_on st (Element button) Click = [] \<and>
         ((\<forall>t\<in>set (tl (event_path st (Element button))). listeners_on st t Click = []) \<longrightarrow>
            dispatch (Element button) Click (st, e) = (st, e))"
proof -
  have l: "listeners st = (Document, DOMContentLoaded, Initialize) # installed pre"
    using assms by (simp add: listeners_page_ready)
  have "\<not> is_delete_link (elements pre button)"
    using assms(2) by (simp add: is_delete_link_def split: href_value.splits)
  then have own: "listeners_on st (Element button) Click = []"
    by (simp add: listeners_on_click[OF l] filter_empty_conv)
  have "dispatch (Element button) Click (st, e) = (st, e)"
    if "\<forall>t\<in>set (tl (event_path st (Element button))). listeners_on st t Click = []"
  proof (rule dispatch_no_listeners)
    show "\<forall>t\<in>set (event_path st (Element button)). listeners_on st t Click = []"
      using that own by (subst event_path_split) simp
  qed
  with own show ?thesis by simp
qed

theorem other_danger_button_no_listener_witness:
  "3 \<in> set (querySelectorAll sample_page (Class (js ''btn-danger''))) \<and>
   listeners_on (page_ready Classic sample_page) (Element 3) Click = [] \<and>
   dispatch (Element 3) Click (page_ready Classic sample_page, \<lparr>default_prevented = False\<rparr>) =
     (page_ready Classic sample_page, \<lparr>default_prevented = False\<rparr>)"
proof -
  let ?P = "page_ready Classic sample_page"
  have h1: "listeners sample_page = []" by simp
  have h2: "\<forall>h. href (elements sample_page 3) = HrefString h \<longrightarrow> \<not> js_includes h (js ''delete'')"
    by (simp add: sample_data)
  have h3: "3 \<in> set (querySelectorAll sample_page (Class (js ''btn-danger'')))"
    by (simp add: sample_data)
  have p: "event_path ?P (Element 3) = [Element 3, Element 0, Document]"
    by (simp add: event_path_def page_ready_fields)
  have up: "\<forall>t\<in>set (tl (event_path ?P (Element 3))). listeners_on ?P t Click = []"
    by (simp add: p listeners_on_def listeners_page_ready sample_installed)
  from other_danger_button_no_listener[OF h1 h2 refl, where kind = Classic
      and e = "\<lparr>default_prevented = False\<rparr>"] h3 up
  show ?thesis by simp
qed

subsection \<open>File inputs\<close>

text \<open>
  C8. The change listener of a file input is a no-op. Let the script be the only source
  of listeners. When the \<open>DOMContentLoaded\<close> listener runs to its end, every file
  input of the page carries the change listener and nothing else for that event. A
  change event on any target leaves the state and the event as they were. The body of
  the listener, run in any state with any event, ends without an exception and leaves
  the state and the event as they were.
\<close>

theorem file_input_change_noop:
  assumes "listeners pre = []"
    and "listeners st = listeners (page_ready kind pre)"
  shows "(init_completes pre \<longrightarrow>
            (\<forall>input \<in> set (querySelectorAll pre InputTypeFile).
               listeners_on st (Element input) Change \<noteq> [] \<and>
               set (listeners_on st (Element input) Change) = {FileInputChange input})) \<and>
         dispatch tgt Change (st, e) = (st, e) \<and>
         run_handler (FileInputChange i) (s, e) = (s, e) \<and>
         outcome (file_input_change i) (s, e) = Inr () \<and>
         final (file_input_change i) (s, e) = (s, e)"
proof -
  have l: "listeners st = (Document, DOMContentLoaded, Initialize) # installed pre"
    using assms by (simp add: listeners_page_ready)
  have "dispatch tgt Change (st, e) =
          fold run_handler (concat (map (\<lambda>t. listeners_on st t Change) (event_path st tgt))) (st, e)"
    by (rule dispatch_eq[OF l]) simp
  also have "\<dots> = (st, e)"
    by (rule fold_run_FileInputChange) (auto dest: change_listeners[OF l])
  finally have d: "dispatch tgt Change (st, e) = (st, e)" .
  have "init_completes pre \<longrightarrow>
          (\<forall>input \<in> set (querySelectorAll pre InputTypeFile).
            listeners_on st (Element input) Change \<noteq> [] \<and>
            set (listeners_on st (Element input) Change) = {FileInputChange input})"
    by (auto simp: listeners_on_change[OF l] filter_empty_conv)
  with d show ?thesis
    by (simp add: run_handler_FileInputChange file_input_change_returns)
qed

theorem file_input_change_noop_witness:
  "listeners sample_page = [] \<and> init_completes sample_page \<and>
   7 \<in> set (querySelectorAll sample_page InputTypeFile) \<and>
   set (listeners_on (page_ready Classic sample_page) (Element 7) Change) = {FileInputChange 7} \<and>
   dispatch (Element 7) Change (page_ready Classic sample_page, \<lparr>default_prevented = False\<rparr>) =
     (page_ready Classic sample_page, \<lparr>default_prevented = False\<rparr>)"
proof -
  have h1: "listeners sample_page = []" by simp
  have h2: "7 \<in> set (querySelectorAll sample_page InputTypeFile)"
    by (simp add: sample_data)
  from file_input_change_noop[OF h1 refl, where kind = Classic and tgt = "Element 7"
      and e = "\<lparr>default_prevented = False\<rparr>"] h1 h2 sample_init
  show ?thesis by blast
qed

subsection \<open>The mobile menu\<close>

text \<open>
  C6, as the claim states it, fails: the sidebar of the sample page has the class list
  \<open>mobile-open sidebar\<close>; the first call removes \<open>mobile-open\<close>, the second appends it,
  and the class list is \<open>sidebar mobile-open\<close>, not what it was.
\<close>

theorem toggleMobileMenu_twice_counterexample:
  "querySelector sample_page (Class (js ''sidebar'')) = Some 9 \<and>
   classList (elements sample_page 9) = [js ''mobile-open'', js ''sidebar''] \<and>
   classList (elements (toggleMobileMenu (toggleMobileMenu sample_page)) 9) =
     [js ''sidebar'', js ''mobile-open''] \<and>
   toggleMobileMenu (toggleMobileMenu sample_page) \<noteq> sample_page"
proof -
  have a: "classList (elements sample_page 9) = [js ''mobile-open'', js ''sidebar'']"
    by (simp add: sample_elements_def blank_element_def)
  have b: "classList (elements (toggleMobileMenu (toggleMobileMenu sample_page)) 9) =
     [js ''sidebar'', js ''mobile-open'']"
    by (simp add: toggleMobileMenu_twice[OF sample_sidebar] update_element_def toggle_def
        sample_elements_def blank_element_def sidebar_not_mobile_open
        sidebar_not_mobile_open[symmetric])
  have "js ''mobile-open'' \<noteq> js ''sidebar''" by (simp add: js_def)
  with a b have "toggleMobileMenu (toggleMobileMenu sample_page) \<noteq> sample_page"
    by auto
  with a b sample_sidebar show ?thesis by simp
qed

text \<open>
  C6, amended. Without a sidebar the call changes nothing. With one, the call flips the
  membership of \<open>mobile-open\<close> in the class list of the first sidebar and of nothing
  else, and touches no other element; two calls in succession restore the set of classes
  of the sidebar, and restore the whole state when \<open>mobile-open\<close> was absent before
  (when it was present, it moves to the end of the class list).
\<close>

theorem toggleMobileMenu_toggles:
  "(querySelector st (Class (js ''sidebar'')) = None \<longrightarrow> toggleMobileMenu st = st) \<and>
   (\<forall>sidebar. querySelector st (Class (js ''sidebar'')) = Some sidebar \<longrightarrow>
      (js ''mobile-open'' \<in> set (classList (elements (toggleMobileMenu st) sidebar)) \<longleftrightarrow>
         js ''mobile-open'' \<notin> set (classList (elements st sidebar))) \<and>
      (\<forall>c. c \<noteq> js ''mobile-open'' \<longrightarrow>
         (c \<in> set (classList (elements (toggleMobileMenu st) sidebar)) \<longleftrightarrow>
            c \<in> set (classList (elements st sidebar)))) \<and>
      (\<forall>i. i \<noteq> sidebar \<longrightarrow> elements (toggleMobileMenu st) i = elements st i) \<and>
      (\<forall>i. i \<noteq> sidebar \<longrightarrow> elements (toggleMobileMenu (toggleMobileMenu st)) i = elements st i) \<and>
      set (classList (elements (toggleMobileMenu (toggleMobileMenu st)) sidebar)) =
        set (classList (elements st sidebar)) \<and>
      (js ''mobile-open'' \<notin> set (classList (elements st sidebar)) \<longrightarrow>
         toggleMobileMenu (toggleMobileMenu st) = st))"
proof (intro conjI allI impI)
  assume "querySelector st (Class (js ''sidebar'')) = None"
  then show "toggleMobileMenu st = st" by (simp add: toggleMobileMenu_def)
next
  fix sidebar
  assume s: "querySelector st (Class (js ''sidebar'')) = Some sidebar"
  then have one: "toggleMobileMenu st =
      update_element sidebar
        (\<lambda>el. el\<lparr>classList := toggle (js ''mobile-open'') (classList el)\<rparr>) st"
    by (simp add: toggleMobileMenu_def)
  note two = toggleMobileMenu_twice[OF s]
  show "js ''mobile-open'' \<in> set (classList (elements (toggleMobileMenu st) sidebar)) \<longleftrightarrow>
         js ''mobile-open'' \<notin> set (classList (elements st sidebar))"
    by (simp add: one update_element_def toggle_member)
  show "c \<in> set (classList (elements (toggleMobileMenu st) sidebar)) \<longleftrightarrow>
            c \<in> set (classList (elements st sidebar))" if "c \<noteq> js ''mobile-open''" for c
    using that by (simp add: one update_element_def toggle_other)
  show "elements (toggleMobileMenu st) i = elements st i" if "i \<noteq> sidebar" for i
    using that by (simp add: one update_element_def)
  show "elements (toggleMobileMenu (toggleMobileMenu st)) i = elements st i"
    if "i \<noteq> sidebar" for i
    using that by (simp add: two update_element_def)
  show "set (classList (elements (toggleMobileMenu (toggleMobileMenu st)) sidebar)) =
        set (classList (elements st sidebar))"
    by (simp add: two update_element_def toggle_twice_set)
  show "toggleMobileMenu (toggleMobileMenu st) = st"
    if "js ''mobile-open'' \<notin> set (classList (elements st sidebar))"
    using that by (simp add: two update_element_def toggle_twice_absent)
qed

theorem toggleMobileMenu_toggles_witness:
  "querySelector sample_page (Class (js ''sidebar'')) = Some 9 \<and>
   js ''mobile-open'' \<in> set (classList (elements sample_page 9)) \<and>
   js ''mobile-open'' \<notin> set (classList (elements (toggleMobileMenu sample_page) 9)) \<and>
   js ''sidebar'' \<in> set (classList (elements (toggleMobileMenu sample_page) 9)) \<and>
   elements (toggleMobileMenu sample_page) 4 = elements sample_page 4 \<and>
   set (classList (elements (toggleMobileMenu (toggleMobileMenu sample_page)) 9)) =
     set (classList (elements sample_page 9)) \<and>
   toggleMobileMenu (toggleMobileMenu (toggleMobileMenu sample_page)) =
     toggleMobileMenu sample_page"
proof -
  have m: "js ''mobile-open'' \<in> set (classList (elements sample_page 9))"
    by (simp add: sample_elements_def blank_element_def)
  have s: "js ''sidebar'' \<in> set (classList (elements sample_page 9))"
    by (simp add: sample_elements_def blank_element_def)
  have ne: "js ''sidebar'' \<noteq> js ''mobile-open''" by (simp add: js_def)
  have q: "querySelector (toggleMobileMenu sample_page) (Class (js ''sidebar'')) = Some 9"
    using sample_sidebar by (simp add: toggleMobileMenu_def querySelector_toggled)
  from toggleMobileMenu_toggles[of sample_page]
    toggleMobileMenu_toggles[of "toggleMobileMenu sample_page"]
    sample_sidebar q m s ne
  show ?thesis by (auto simp del: One_nat_def)
qed

subsection \<open>Exports\<close>

text \<open>
  C5, as the claim states it, fails when the page includes the script as a classic
  script: the function declaration adds the global \<open>toggleMobileMenu\<close> next to
  \<open>AEGIS\<close>, so the script adds two global entry points, not one.
\<close>

theorem load_script_exports_counterexample:
  "window sample_page ''toggleMobileMenu'' = None \<and>
   window (load_script Classic sample_page) ''toggleMobileMenu'' =
     Some (Function ToggleMobileMenu) \<and>
   dom (window (load_script Classic sample_page)) = {''toggleMobileMenu'', ''AEGIS''}"
  by (auto simp add: load_script_def addEventListener_def)

text \<open>
  C5, amended. After the script has run, \<open>window.AEGIS\<close> is an object whose one property
  \<open>toggleMobileMenu\<close> is the function of that name, and another script can call it. As
  a module the script adds no other global; as a classic script it also adds the global
  \<open>toggleMobileMenu\<close>.
\<close>

theorem load_script_exports:
  "window (load_script kind st) ''AEGIS'' =
     Some (Object [(''toggleMobileMenu'', Function ToggleMobileMenu)]) \<and>
   call_method ''AEGIS'' ''toggleMobileMenu'' (load_script kind st) =
     Inr (toggleMobileMenu (load_script kind st)) \<and>
   window (load_script Module st) =
     (window st)(''AEGIS'' \<mapsto> Object [(''toggleMobileMenu'', Function ToggleMobileMenu)]) \<and>
   window (load_script Classic st) =
     (window st)(''toggleMobileMenu'' \<mapsto> Function ToggleMobileMenu,
                 ''AEGIS'' \<mapsto> Object [(''toggleMobileMenu'', Function ToggleMobileMenu)])"
  by (cases kind) (simp_all add: load_script_def call_method_def addEventListener_def)

subsection \<open>Footprint\<close>

text \<open>
  C9, as the claim states it, fails: on a change event the listener of the file input of
  the sample page reads the file input and the \<open>small\<close> element that follows it,
  which is none of the elements the claim lists.
\<close>

theorem script_confined_counterexample:
  "script_state (page_ready Classic sample_page) \<and>
   enabled (page_ready Classic sample_page)
     (Listener (FileInputChange 7) \<lparr>default_prevented = False\<rparr>) \<and>
   accesses (Listener (FileInputChange 7) \<lparr>default_prevented = False\<rparr>)
     (page_ready Classic sample_page) = [7, 7, 8] \<and>
   \<not> conventional (page_ready Classic sample_page) 8"
proof -
  have l: "listeners sample_page = []" and t: "timers sample_page = []" by simp_all
  have "enabled (page_ready Classic sample_page)
     (Listener (FileInputChange 7) \<lparr>default_prevented = False\<rparr>)"
    by (simp add: listeners_page_ready[OF l] sample_installed)
  moreover have "accesses (Listener (FileInputChange 7) \<lparr>default_prevented = False\<rparr>)
     (page_ready Classic sample_page) = [7, 7, 8]"
    by (simp add: accesses_def file_input_change_def Let_def sample_sibling)
  ultimately show ?thesis
    using script_state_page_ready[OF l t, of Classic] sample_small_unconventional by blast
qed

text \<open>
  C9, amended. Consider a state in which every registered submit listener is closed
  over a form, every registered change listener is bound to a file input, and every
  pending timer callback is closed over an element of class \<open>alert\<close>. Every activity
  of the script in such a state (a registered listener invoked with an event, a pending
  timer callback, a call of \<open>toggleMobileMenu\<close>) has the effect of running its program,
  and running the program accesses (reads or writes a property of, or calls a method
  of) only elements within the structure conventions and the next element sibling of a
  file input. The activity leaves every element outside the conventions as it was; it
  leaves the document as it was or removes an alert element from it; and it leads to a
  state of the same kind. The page after \<open>DOMContentLoaded\<close> is such a state when no
  listener was registered and no timer was pending before the script ran.
\<close>

theorem script_confined:
  assumes "script_state st" and "enabled st act"
  shows "perform act st = fst (run_program (program act) (st, event_of act)) \<and>
         (\<forall>i\<in>set (accesses act st). conventional st i \<or> follows_file_input st i) \<and>
         (\<forall>i. \<not> conventional st i \<longrightarrow> elements (perform act st) i = elements st i) \<and>
         (document (perform act st) = document st \<or>
          (\<exists>alert. matches (Class (js ''alert'')) (elements st alert) \<and>
                   document (perform act st) = remove_from alert (document st))) \<and>
         script_state (perform act st) \<and>
         (listeners pre = [] \<and> timers pre = [] \<longrightarrow> script_state (page_ready kind pre))"
proof -
  have "listeners pre = [] \<and> timers pre = [] \<longrightarrow> script_state (page_ready kind pre)"
    by (simp add: script_state_page_ready)
  note inv = script_state_perform[OF assms] this
  show ?thesis
  proof (cases act)
    case (Listener h e)
    with assms have "handler_ok st h" by (auto simp: script_state_def)
    from handler_confined[OF this, of e] inv show ?thesis
      by (simp add: Listener accesses_def run_handler_def)
  next
    case (TimerCallback cb)
    with assms have a: "matches (Class (js ''alert'')) (elements st (callback_target cb))"
      by (auto simp: script_state_def)
    then have c: "conventional st (callback_target cb)" by (simp add: conventional_def)
    show ?thesis
    proof (cases cb)
      case (FadeOut alert)
      with c inv show ?thesis
        by (auto simp: TimerCallback accesses_def fade_out_def run_callback_def
            run_program_def setTimeout_def update_element_def)
    next
      case (RemoveAlert alert)
      with a c inv show ?thesis
        by (auto simp: TimerCallback accesses_def remove_alert_def run_callback_def
            run_program_def remove_element_fields)
    qed
  next
    case (Call f)
    then have f: "f = ToggleMobileMenu" by (cases f) simp
    show ?thesis
    proof (cases "querySelector st (Class (js ''sidebar''))")
      case None
      with inv show ?thesis
        by (simp add: Call f accesses_def toggleMobileMenu_program_run)
           (simp add: toggleMobileMenu_def)
    next
      case (Some sidebar)
      then have "conventional st sidebar"
        by (auto simp: conventional_def dest: querySelector_matches)
      with Some inv show ?thesis
        by (simp add: Call f accesses_def toggleMobileMenu_program_run)
           (auto simp: toggleMobileMenu_def update_element_def)
    qed
  qed
qed

theorem script_confined_witness:
  "script_state (page_ready Classic sample_page) \<and>
   enabled (page_ready Classic sample_page)
     (Listener (ValidateForm 4) \<lparr>default_prevented = False\<rparr>) \<and>
   accesses (Listener (ValidateForm 4) \<lparr>default_prevented = False\<rparr>)
     (page_ready Classic sample_page) = [4, 5, 5, 6, 6] \<and>
   conventional (page_ready Classic sample_page) 5 \<and>
   \<not> conventional (page_ready Classic sample_page) 8 \<and>
   elements (perform (Listener (ValidateForm 4) \<lparr>default_prevented = False\<rparr>)
     (page_ready Classic sample_page)) 8 = elements (page_ready Classic sample_page) 8 \<and>
   document (perform (Listener (ValidateForm 4) \<lparr>default_prevented = False\<rparr>)
     (page_ready Classic sample_page)) = document (page_ready Classic sample_page) \<and>
   script_state (perform (Listener (ValidateForm 4) \<lparr>default_prevented = False\<rparr>)
     (page_ready Classic sample_page))"
proof -
  let ?P = "page_ready Classic sample_page"
  let ?act = "Listener (ValidateForm 4) \<lparr>default_prevented = False\<rparr>"
  have l: "listeners sample_page = []" and t: "timers sample_page = []" by simp_all
  note s = script_state_page_ready[OF l t, of Classic]
  have en: "enabled ?P ?act"
    by (simp add: listeners_page_ready[OF l] sample_installed)
  have ac: "accesses ?act ?P = [4, 5, 5, 6, 6]"
    by (simp add: accesses_def validate_form_def sample_required sample_values sample_trims
        update_element_def)
  have nf: "\<not> follows_file_input ?P 5"
    by (simp add: follows_file_input_def sample_nodes select_in_def sample_sibling
        page_ready_fields sample_elements_def blank_element_def js_def ascii_lower_def)
  have d: "document (perform ?act ?P) = document ?P"
    using validated_queues[of 4 "(?P, \<lparr>default_prevented = False\<rparr>)"]
    by (simp add: run_handler_ValidateForm)
  from script_confined[OF s en, where pre = sample_page and kind = Classic]
    ac sample_small_unconventional nf d
  show ?thesis using s en by auto
qed

end
